theory Spec2Isabelle
  imports Complex_Main
begin

text \<open>
  A shallow embedding of \<open>devops_test_calculations.py\<close>, a script that estimates the
  capacity, the operations and the cost of a machine translation service and of an LLM
  chat service, and prints two reports. The embedding follows the script: its constants,
  its three estimators, its two report functions and its entry point, over a model of
  Python's integers, floats, exceptions, string formatting and standard output.
\<close>

section \<open>Python numbers\<close>

text \<open>
  The script computes with Python's unbounded integers and with Python floats, which are
  IEEE 754 binary64 values. A finite float is modelled by the rational number it denotes,
  so equality of two \<open>Fin\<close> values is Python's \<open>==\<close> on finite floats; \<open>Fin 0\<close> stands
  for both signed zeros, which \<open>==\<close> does not tell apart. Every float operation rounds
  the exact result to the nearest binary64 value, ties to the even significand.
\<close>

datatype pyfloat = Fin rat | PInf | NInf | NaN

datatype py_error = ZeroDivisionError | OverflowError

text \<open>Rounding a rational to the nearest integer, ties to the even one.\<close>

definition round_half_even :: "rat \<Rightarrow> int" where
  "round_half_even q =
     (let f = \<lfloor>q\<rfloor>; d = q - of_int f
      in if d < 1 / 2 then f else if 1 / 2 < d then f + 1 else if even f then f else f + 1)"

text \<open>The number of binary digits of a positive integer.\<close>

function bitlen :: "int \<Rightarrow> int" where
  "bitlen a = (if 0 < a then bitlen (a div 2) + 1 else 0)"
  by pat_completeness auto
termination
  by (relation "measure nat") auto

declare bitlen.simps [simp del]

text \<open>The binary exponent of a non-zero rational: \<open>2 powi ilog2 q \<le> \<bar>q\<bar> < 2 powi (ilog2 q + 1)\<close>.\<close>

definition ilog2 :: "rat \<Rightarrow> int" where
  "ilog2 q =
     (let (a, b) = quotient_of \<bar>q\<bar>; d = bitlen a - bitlen b
      in if 2 powi d \<le> \<bar>q\<bar> then d else d - 1)"

text \<open>
  The exponent of the unit in the last place: 53 significant bits in the normal range,
  the fixed spacing \<open>2 powi - 1074\<close> of the subnormal numbers below \<open>2 powi - 1022\<close>.
\<close>

definition ulp_exp :: "rat \<Rightarrow> int" where
  "ulp_exp q = max (ilog2 q - 52) (- 1074)"

text \<open>Round to nearest, ties to even, with the exponent unbounded above.\<close>

definition round_double :: "rat \<Rightarrow> rat" where
  "round_double q =
     (if q = 0 then 0
      else of_int (round_half_even (q / 2 powi ulp_exp q)) * 2 powi ulp_exp q)"

text \<open>
  The largest float is \<open>2 ^ 1024 - 2 ^ 971\<close>; a value that rounds to \<open>2 ^ 1024\<close> or
  beyond is out of range.
\<close>

definition float_overflow :: rat where
  "float_overflow = 2 ^ 1024"

text \<open>The result of a float operation: out of range, it is an infinity.\<close>

definition float_result :: "rat \<Rightarrow> pyfloat" where
  "float_result q =
     (let r = round_double q
      in if float_overflow \<le> r then PInf else if r \<le> - float_overflow then NInf else Fin r)"

text \<open>
  Converting an integer operand to a float rounds it; Python raises OverflowError
  (``int too large to convert to float'') where the rounded value is out of range.
\<close>

definition float_of_int :: "int \<Rightarrow> py_error + pyfloat" where
  "float_of_int i =
     (let r = round_double (of_int i)
      in if float_overflow \<le> \<bar>r\<bar> then Inl OverflowError else Inr (Fin r))"

text \<open>
  \<open>a / b\<close> on two integers is true division: the exact quotient, correctly rounded;
  ZeroDivisionError for a zero divisor, OverflowError (``integer division result too
  large for a float'') where the rounded quotient is out of range.
\<close>

definition int_truediv :: "int \<Rightarrow> int \<Rightarrow> py_error + pyfloat" where
  "int_truediv a b =
     (if b = 0 then Inl ZeroDivisionError
      else let r = round_double (of_int a / of_int b)
           in if float_overflow \<le> \<bar>r\<bar> then Inl OverflowError else Inr (Fin r))"

text \<open>\<open>x * y\<close> on two floats never raises: it overflows to an infinity.\<close>

fun float_mul :: "pyfloat \<Rightarrow> pyfloat \<Rightarrow> pyfloat" where
  "float_mul (Fin a) (Fin b) = float_result (a * b)"
| "float_mul NaN _ = NaN"
| "float_mul _ NaN = NaN"
| "float_mul (Fin a) PInf = (if a = 0 then NaN else if 0 < a then PInf else NInf)"
| "float_mul (Fin a) NInf = (if a = 0 then NaN else if 0 < a then NInf else PInf)"
| "float_mul PInf (Fin b) = (if b = 0 then NaN else if 0 < b then PInf else NInf)"
| "float_mul NInf (Fin b) = (if b = 0 then NaN else if 0 < b then NInf else PInf)"
| "float_mul PInf PInf = PInf"
| "float_mul PInf NInf = NInf"
| "float_mul NInf PInf = NInf"
| "float_mul NInf NInf = PInf"

text \<open>\<open>x / y\<close> on two floats raises ZeroDivisionError for a zero divisor.\<close>

definition float_truediv :: "pyfloat \<Rightarrow> pyfloat \<Rightarrow> py_error + pyfloat" where
  "float_truediv x y =
     (case y of
        Fin b \<Rightarrow>
          if b = 0 then Inl ZeroDivisionError
          else Inr (case x of
                      Fin a \<Rightarrow> float_result (a / b)
                    | PInf \<Rightarrow> if 0 < b then PInf else NInf
                    | NInf \<Rightarrow> if 0 < b then NInf else PInf
                    | NaN \<Rightarrow> NaN)
      | NaN \<Rightarrow> Inr NaN
      | _ \<Rightarrow> Inr (case x of Fin a \<Rightarrow> Fin 0 | _ \<Rightarrow> NaN))"

text \<open>Mixed operands: the integer is converted first, then the float operation runs.\<close>

definition int_mul_float :: "int \<Rightarrow> pyfloat \<Rightarrow> py_error + pyfloat" where
  "int_mul_float i y =
     (case float_of_int i of Inl e \<Rightarrow> Inl e | Inr x \<Rightarrow> Inr (float_mul x y))"

definition float_mul_int :: "pyfloat \<Rightarrow> int \<Rightarrow> py_error + pyfloat" where
  "float_mul_int x i =
     (case float_of_int i of Inl e \<Rightarrow> Inl e | Inr y \<Rightarrow> Inr (float_mul x y))"

definition float_truediv_int :: "pyfloat \<Rightarrow> int \<Rightarrow> py_error + pyfloat" where
  "float_truediv_int x i =
     (case float_of_int i of Inl e \<Rightarrow> Inl e | Inr y \<Rightarrow> float_truediv x y)"

section \<open>Global assumptions\<close>

definition GPU_TFLOPS :: int where
  "GPU_TFLOPS = 90"

definition GPU_HOURLY_COST :: pyfloat where
  "GPU_HOURLY_COST = Fin 2"

section \<open>Use case 1: machine translation\<close>

definition WORDS_PER_MIN_TRANSLATION :: int where
  "WORDS_PER_MIN_TRANSLATION = 1000"

definition WORDS_PER_HOUR_TRANSLATION :: int where
  "WORDS_PER_HOUR_TRANSLATION = WORDS_PER_MIN_TRANSLATION * 60"

text \<open>Returns \<open>(gpu_hours, total_tflops, cost)\<close>.\<close>

definition translation_estimates :: "int \<Rightarrow> py_error + pyfloat \<times> pyfloat \<times> pyfloat" where
  "translation_estimates words_per_day =
     (case int_truediv words_per_day WORDS_PER_HOUR_TRANSLATION of
        Inl e \<Rightarrow> Inl e
      | Inr gpu_hours \<Rightarrow>
          (case float_mul_int gpu_hours 3600 of
             Inl e \<Rightarrow> Inl e
           | Inr t \<Rightarrow>
               (case float_mul_int t GPU_TFLOPS of
                  Inl e \<Rightarrow> Inl e
                | Inr total_tflops \<Rightarrow>
                    Inr (gpu_hours, total_tflops, float_mul gpu_hours GPU_HOURLY_COST))))"

text \<open>
  Minutes to translate a document. The parameter \<open>num_gpus\<close> defaults to 1 in the script;
  a call that omits it is a call with 1 here.
\<close>

definition translation_doc_time :: "int \<Rightarrow> int \<Rightarrow> py_error + pyfloat" where
  "translation_doc_time words num_gpus =
     (let words_per_min_total = WORDS_PER_MIN_TRANSLATION * num_gpus
      in int_truediv words words_per_min_total)"

section \<open>Use case 2: LLM chat\<close>

definition LLM_PARAMS_BILLIONS :: int where
  "LLM_PARAMS_BILLIONS = 13"

text \<open>\<open>2 * LLM_PARAMS_BILLIONS * 1e9\<close>, evaluated when the module is loaded.\<close>

definition FLOPS_PER_TOKEN :: "py_error + pyfloat" where
  "FLOPS_PER_TOKEN = int_mul_float (2 * LLM_PARAMS_BILLIONS) (Fin 1000000000)"

definition TOKENS_PER_USER_PER_DAY :: int where
  "TOKENS_PER_USER_PER_DAY = 3000"

text \<open>Returns \<open>(tokens, gpu_hours, total_tflops, cost)\<close>.\<close>

definition llm_chat_estimates ::
  "int \<Rightarrow> py_error + int \<times> pyfloat \<times> pyfloat \<times> pyfloat" where
  "llm_chat_estimates users_per_day =
     (case FLOPS_PER_TOKEN of
        Inl e \<Rightarrow> Inl e
      | Inr flops_per_token \<Rightarrow>
     (let tokens = users_per_day * TOKENS_PER_USER_PER_DAY in
      case int_mul_float tokens flops_per_token of
        Inl e \<Rightarrow> Inl e
      | Inr flops_day \<Rightarrow>
     (case int_mul_float GPU_TFLOPS (Fin 1000000000000) of
        Inl e \<Rightarrow> Inl e
      | Inr flops_per_second \<Rightarrow>
     (case float_truediv flops_day flops_per_second of
        Inl e \<Rightarrow> Inl e
      | Inr gpu_seconds \<Rightarrow>
     (case float_truediv_int gpu_seconds 3600 of
        Inl e \<Rightarrow> Inl e
      | Inr gpu_hours \<Rightarrow>
     (case float_mul_int gpu_hours 3600 of
        Inl e \<Rightarrow> Inl e
      | Inr t \<Rightarrow>
     (case float_mul_int t GPU_TFLOPS of
        Inl e \<Rightarrow> Inl e
      | Inr total_tflops \<Rightarrow>
          Inr (tokens, gpu_hours, total_tflops, float_mul gpu_hours GPU_HOURLY_COST))))))))"

text \<open>
  The statements of \<open>llm_chat_estimates\<close> read over the rationals, with no rounding: the
  no-rounding limit in which the specification compares the two derivations of the total.
\<close>

definition llm_chat_estimates_exact :: "int \<Rightarrow> int \<times> rat \<times> rat \<times> rat" where
  "llm_chat_estimates_exact users_per_day =
     (let tokens = users_per_day * TOKENS_PER_USER_PER_DAY;
          flops_day = of_int tokens * (of_int (2 * LLM_PARAMS_BILLIONS) * 1000000000);
          flops_per_second = of_int GPU_TFLOPS * 1000000000000;
          gpu_seconds = flops_day / flops_per_second;
          gpu_hours = gpu_seconds / 3600;
          total_tflops = gpu_hours * 3600 * of_int GPU_TFLOPS;
          cost = gpu_hours * 2
      in (tokens, gpu_hours, total_tflops, cost))"

text \<open>
  The direct derivation, in the specification's words: tokens times operations per token,
  expressed in tera-operations, in exact arithmetic.
\<close>

definition direct_tflops :: "int \<Rightarrow> rat" where
  "direct_tflops users_per_day =
     of_int (users_per_day * TOKENS_PER_USER_PER_DAY) *
       (of_int (2 * LLM_PARAMS_BILLIONS) * 1000000000) / 1000000000000"

section \<open>Formatting and standard output\<close>

text \<open>
  Standard output is a string, and \<open>print\<close> appends a line to it. Python strings are
  sequences of code points; the stream is modelled as the bytes of its UTF-8 encoding.
\<close>

definition py_print :: "string \<Rightarrow> string \<Rightarrow> string" where
  "py_print line out = out @ line @ [CHR 0x0A]"

text \<open>A \<open>for\<close> loop whose body may raise: the first exception ends the loop.\<close>

fun py_for :: "'a list \<Rightarrow> ('a \<Rightarrow> string \<Rightarrow> py_error + string) \<Rightarrow> string \<Rightarrow> py_error + string" where
  "py_for [] body out = Inr out"
| "py_for (x # xs) body out =
     (case body x out of Inl e \<Rightarrow> Inl e | Inr out' \<Rightarrow> py_for xs body out')"

text \<open>Decimal digits of a non-negative integer, most significant first.\<close>

function digits :: "int \<Rightarrow> string" where
  "digits n =
     (if n < 10 then [''0123456789'' ! nat n]
      else digits (n div 10) @ [''0123456789'' ! nat (n mod 10)])"
  by pat_completeness auto
termination
  by (relation "measure nat") auto

declare digits.simps [simp del]

text \<open>\<open>str\<close> of an integer, also the format of a replacement field with no format spec.\<close>

definition str_int :: "int \<Rightarrow> string" where
  "str_int i = (if i < 0 then ''-'' else '''') @ digits \<bar>i\<bar>"

text \<open>The \<open>,\<close> option: a comma between groups of three digits, counted from the right.\<close>

fun group_thousands_rev :: "string \<Rightarrow> string" where
  "group_thousands_rev (a # b # c # d # ds) = a # b # c # CHR '','' # group_thousands_rev (d # ds)"
| "group_thousands_rev ds = ds"

definition group_thousands :: "string \<Rightarrow> string" where
  "group_thousands ds = rev (group_thousands_rev (rev ds))"

text \<open>Numbers are aligned to the right of a field of the given minimum width.\<close>

definition pad_left :: "nat \<Rightarrow> string \<Rightarrow> string" where
  "pad_left width s = replicate (width - length s) CHR '' '' @ s"

text \<open>The format spec \<open>{width},d\<close> of an integer (\<open>,\<close> alone is width 0).\<close>

definition format_int_grouped :: "nat \<Rightarrow> int \<Rightarrow> string" where
  "format_int_grouped width i =
     pad_left width ((if i < 0 then ''-'' else '''') @ group_thousands (digits \<bar>i\<bar>))"

text \<open>
  The format spec \<open>{width}.{prec}f\<close> of a float (width 0 when it is absent): the exact
  value of the float, rounded to \<open>prec\<close> decimals, ties to even. A negative zero would
  print with a minus sign; \<open>Fin 0\<close> stands for the positive one here.
\<close>

definition format_f :: "nat \<Rightarrow> nat \<Rightarrow> pyfloat \<Rightarrow> string" where
  "format_f width prec x =
     pad_left width
       (case x of
          Fin r \<Rightarrow>
            (let n = round_half_even (\<bar>r\<bar> * 10 ^ prec);
                 frac = digits (n mod 10 ^ prec)
             in (if r < 0 then ''-'' else '''') @ digits (n div 10 ^ prec) @
                (if prec = 0 then ''''
                 else ''.'' @ replicate (prec - length frac) CHR ''0'' @ frac))
        | PInf \<Rightarrow> ''inf''
        | NInf \<Rightarrow> ''-inf''
        | NaN \<Rightarrow> ''nan'')"

text \<open>
  \<open>str\<close> of a float, the format of a replacement field with no format spec. The script
  prints only the constant \<open>GPU_HOURLY_COST\<close> this way. A finite float with an integer
  value below \<open>10 ^ 16\<close> prints as the integer followed by \<open>.0\<close>; for the other finite
  floats Python prints the shortest decimal that rounds back to the float, which is left
  unspecified here.
\<close>

definition str_float :: "pyfloat \<Rightarrow> string" where
  "str_float x =
     (case x of
        Fin r \<Rightarrow>
          if r = of_int \<lfloor>r\<rfloor> \<and> \<bar>r\<bar> < 10 ^ 16
          then (if r < 0 then ''-'' else '''') @ digits \<bar>\<lfloor>r\<rfloor>\<bar> @ ''.0''
          else undefined
      | PInf \<Rightarrow> ''inf''
      | NInf \<Rightarrow> ''-inf''
      | NaN \<Rightarrow> ''nan'')"

section \<open>The reports\<close>

definition print_translation_summary :: "string \<Rightarrow> py_error + string" where
  "print_translation_summary out0 =
     (let out1 = py_print (replicate 80 CHR ''='') out0;
          out2 = py_print ''USE CASE 1: MACHINE TRANSLATION - CAPACITY & COST ESTIMATES'' out1;
          out3 = py_print ''Assumptions:'' out2;
          out4 = py_print (''  - 1 GPU can translate '' @ str_int WORDS_PER_MIN_TRANSLATION @
                   '' words/minute '' @ ''('' @ str_int WORDS_PER_HOUR_TRANSLATION @
                   '' words/hour)'') out3;
          out5 = py_print (''  - GPU peak performance: '' @ str_int GPU_TFLOPS @ '' TFLOPs/s'') out4;
          out6 = py_print (''  - GPU hourly cost: $'' @ str_float GPU_HOURLY_COST @ ''/hour'' @
                   [CHR 0x0A]) out5;
          target_words = 10000
      in case py_for [1, 2]
             (\<lambda>gpus out.
                case translation_doc_time target_words gpus of
                  Inl e \<Rightarrow> Inl e
                | Inr minutes \<Rightarrow>
                    Inr (py_print (''Time to translate a '' @ format_int_grouped 0 target_words @
                           ''-word document on '' @ str_int gpus @ '' GPU(s): '' @
                           format_f 0 2 minutes @ '' minutes'') out))
             out6 of
           Inl e \<Rightarrow> Inl e
         | Inr out7 \<Rightarrow>
             (let out8 = py_print '''' out7;
                  scenarios = [10000, 100000, 1000000];
                  out9 = py_print ''Daily translation load scenarios:'' out8;
                  out10 = py_print
                    ''Words/day | GPU-hours/day | Total TFLOPs used/day | Cost/day (USD)'' out9;
                  out11 = py_print (replicate 80 CHR ''-'') out10
              in case py_for scenarios
                     (\<lambda>words out.
                        case translation_estimates words of
                          Inl e \<Rightarrow> Inl e
                        | Inr (gpu_hours, total_tflops, cost) \<Rightarrow>
                            Inr (py_print (format_int_grouped 9 words @ '' | '' @
                                   format_f 13 2 gpu_hours @ '' | '' @
                                   format_f 21 0 total_tflops @ '' | $'' @
                                   format_f 10 2 cost) out))
                     out11 of
                   Inl e \<Rightarrow> Inl e
                 | Inr out12 \<Rightarrow> Inr (py_print '''' out12)))"

definition print_llm_chat_summary :: "string \<Rightarrow> py_error + string" where
  "print_llm_chat_summary out0 =
     (let out1 = py_print (replicate 80 CHR ''='') out0;
          out2 = py_print ''USE CASE 2: LLM CHAT - CAPACITY & COST ESTIMATES'' out1;
          out3 = py_print ''Assumptions:'' out2;
          out4 = py_print (''  - Model size: ~'' @ str_int LLM_PARAMS_BILLIONS @
                   ''B parameters'') out3
      in case FLOPS_PER_TOKEN of
           Inl e \<Rightarrow> Inl e
         | Inr flops_per_token \<Rightarrow>
      (case float_truediv flops_per_token (Fin 1000000000) of
           Inl e \<Rightarrow> Inl e
         | Inr gflops_per_token \<Rightarrow>
             (let out5 = py_print (''  - FLOPs per token '' @ [CHR 0xE2, CHR 0x89, CHR 0x88] @
                           '' 2 '' @ [CHR 0xC3, CHR 0x97] @ '' params '' @
                           [CHR 0xE2, CHR 0x89, CHR 0x88] @ '' '' @
                           format_f 0 0 gflops_per_token @ '' GFLOPs/token'') out4;
                  out6 = py_print (''  - Avg tokens per user/day: '' @
                           str_int TOKENS_PER_USER_PER_DAY @ '' tokens'') out5;
                  out7 = py_print (''  - GPU peak performance: '' @ str_int GPU_TFLOPS @
                           '' TFLOPs/s'') out6;
                  out8 = py_print (''  - GPU hourly cost: $'' @ str_float GPU_HOURLY_COST @
                           ''/hour'' @ [CHR 0x0A]) out7;
                  scenarios = [100, 10000, 100000];
                  out9 = py_print ''Daily user load scenarios:'' out8;
                  out10 = py_print
                    (''Users/day | Tokens/day     | GPU-hours/day | Total TFLOPs used/day | '' @
                     ''Cost/day (USD)'') out9;
                  out11 = py_print (replicate 90 CHR ''-'') out10
              in case py_for scenarios
                     (\<lambda>users out.
                        case llm_chat_estimates users of
                          Inl e \<Rightarrow> Inl e
                        | Inr (tokens, gpu_hours, total_tflops, cost) \<Rightarrow>
                            Inr (py_print (format_int_grouped 9 users @ '' | '' @
                                   format_int_grouped 13 tokens @ '' | '' @
                                   format_f 13 2 gpu_hours @ '' | '' @
                                   format_f 21 0 total_tflops @ '' | $'' @
                                   format_f 10 2 cost) out))
                     out11 of
                   Inl e \<Rightarrow> Inl e
                 | Inr out12 \<Rightarrow> Inr (py_print '''' out12))))"

text \<open>The main entry point: the translation report, then the chat report.\<close>

definition main :: "string \<Rightarrow> py_error + string" where
  "main out0 =
     (case print_translation_summary out0 of
        Inl e \<Rightarrow> Inl e
      | Inr out1 \<Rightarrow> print_llm_chat_summary out1)"

section \<open>Reading a report back\<close>

text \<open>A report as the list of its lines.\<close>

definition unlines :: "string list \<Rightarrow> string" where
  "unlines ls = concat (map (\<lambda>l. l @ [CHR 0x0A]) ls)"

text \<open>The numeric fields of a line: its maximal runs of digits, commas and points.\<close>

fun numeric_fields_from :: "string \<Rightarrow> string \<Rightarrow> string list" where
  "numeric_fields_from acc [] = (if acc = [] then [] else [rev acc])"
| "numeric_fields_from acc (c # cs) =
     (if c \<in> set ''0123456789,.'' then numeric_fields_from (c # acc) cs
      else (if acc = [] then [] else [rev acc]) @ numeric_fields_from [] cs)"

definition numeric_fields :: "string \<Rightarrow> string list" where
  "numeric_fields line = numeric_fields_from [] line"

text \<open>The integer that a string of decimal digits denotes.\<close>

definition read_digits :: "string \<Rightarrow> int option" where
  "read_digits ds =
     (if list_all (\<lambda>c. c \<in> set ''0123456789'') ds
      then Some (foldl (\<lambda>a c. 10 * a + (of_char c - 48)) 0 ds)
      else None)"

text \<open>
  The number that an unsigned decimal numeral denotes; thousands separators are skipped.
\<close>

definition read_decimal :: "string \<Rightarrow> rat option" where
  "read_decimal field =
     (let s = filter (\<lambda>c. c \<noteq> CHR '','') field;
          whole = takeWhile (\<lambda>c. c \<noteq> CHR ''.'') s;
          frac = drop 1 (dropWhile (\<lambda>c. c \<noteq> CHR ''.'') s)
      in case (read_digits whole, read_digits frac) of
           (Some w, Some f) \<Rightarrow>
             if whole = [] then None else Some (of_int w + of_int f / 10 ^ length frac)
         | _ \<Rightarrow> None)"

text \<open>
  What a field is meant to show: an integer, or a float to a number of decimals. A field
  shows an integer when it denotes it; it shows a float to \<open>prec\<close> decimals when it
  denotes a number within half a unit of the last displayed decimal of it.
\<close>

datatype shown = Exact int | Rounded nat pyfloat

definition field_shows :: "string \<Rightarrow> shown \<Rightarrow> bool" where
  "field_shows field v =
     (case read_decimal field of
        None \<Rightarrow> False
      | Some d \<Rightarrow>
          (case v of
             Exact i \<Rightarrow> d = of_int i
           | Rounded prec x \<Rightarrow>
               (case x of Fin r \<Rightarrow> \<bar>d - r\<bar> \<le> 1 / (2 * 10 ^ prec) | _ \<Rightarrow> False)))"

definition line_shows :: "string \<Rightarrow> shown list \<Rightarrow> bool" where
  "line_shows line vs = list_all2 field_shows (numeric_fields line) vs"

text \<open>A line of the report shows the arguments and the result of a call of an estimator.\<close>

definition shows_doc_time :: "string \<Rightarrow> int \<Rightarrow> int \<Rightarrow> bool" where
  "shows_doc_time line words gpus =
     (case translation_doc_time words gpus of
        Inl e \<Rightarrow> False
      | Inr minutes \<Rightarrow> line_shows line [Exact words, Exact gpus, Rounded 2 minutes])"

definition shows_translation_estimates :: "string \<Rightarrow> int \<Rightarrow> bool" where
  "shows_translation_estimates line words =
     (case translation_estimates words of
        Inl e \<Rightarrow> False
      | Inr (gpu_hours, total_tflops, cost) \<Rightarrow>
          line_shows line
            [Exact words, Rounded 2 gpu_hours, Rounded 0 total_tflops, Rounded 2 cost])"

definition shows_llm_chat_estimates :: "string \<Rightarrow> int \<Rightarrow> bool" where
  "shows_llm_chat_estimates line users =
     (case llm_chat_estimates users of
        Inl e \<Rightarrow> False
      | Inr (tokens, gpu_hours, total_tflops, cost) \<Rightarrow>
          line_shows line
            [Exact users, Exact tokens, Rounded 2 gpu_hours, Rounded 0 total_tflops,
             Rounded 2 cost])"

section \<open>Properties of the rounding\<close>

subsection \<open>Binary exponent\<close>

lemma bitlen_pos: "0 < a \<Longrightarrow> 1 \<le> bitlen a"
proof (induction a rule: bitlen.induct)
  case (1 a)
  show ?case
  proof (cases "0 < a div 2")
    case True
    with 1 have "1 \<le> bitlen (a div 2)" by simp
    with 1 show ?thesis by (subst bitlen.simps) simp
  next
    case False
    then have "bitlen (a div 2) = 0" by (subst bitlen.simps) simp
    with 1 show ?thesis by (subst bitlen.simps) simp
  qed
qed

lemma bitlen_bounds:
  "0 < a \<Longrightarrow> 2 ^ nat (bitlen a - 1) \<le> a \<and> a < 2 ^ nat (bitlen a)"
proof (induction a rule: bitlen.induct)
  case (1 a)
  have step: "bitlen a = bitlen (a div 2) + 1"
    using 1(2) by (subst bitlen.simps) simp
  show ?case
  proof (cases "0 < a div 2")
    case True
    with 1 have ih: "2 ^ nat (bitlen (a div 2) - 1) \<le> a div 2" "a div 2 < 2 ^ nat (bitlen (a div 2))"
      by simp_all
    have n: "1 \<le> bitlen (a div 2)" using True by (rule bitlen_pos)
    have e1: "nat (bitlen a - 1) = Suc (nat (bitlen (a div 2) - 1))"
      using n step by simp
    have e2: "nat (bitlen a) = Suc (nat (bitlen (a div 2)))"
      using n step by simp
    show ?thesis
      unfolding e1 e2 using ih by simp linarith
  next
    case False
    with 1(2) have a1: "a = 1" by linarith
    have "bitlen (a div 2) = 0" using False by (subst bitlen.simps) simp
    with step have "bitlen a = 1" by simp
    with a1 show ?thesis by simp
  qed
qed

lemma bitlen_bounds_rat:
  assumes "0 < a"
  shows "2 powi (bitlen a - 1) \<le> (of_int a :: rat)" and "(of_int a :: rat) < 2 powi bitlen a"
proof -
  have n: "1 \<le> bitlen a" using assms by (rule bitlen_pos)
  have "(of_int (2 ^ nat (bitlen a - 1)) :: rat) \<le> of_int a"
    using bitlen_bounds [OF assms] by (simp only: of_int_le_iff)
  then show "2 powi (bitlen a - 1) \<le> (of_int a :: rat)"
    using n by (simp add: power_int_def)
  have "(of_int a :: rat) < of_int (2 ^ nat (bitlen a))"
    using bitlen_bounds [OF assms] by (simp only: of_int_less_iff)
  then show "(of_int a :: rat) < 2 powi bitlen a"
    using n by (simp add: power_int_def)
qed

lemma powi2_pos: "0 < (2::rat) powi e"
  by simp

lemma powi2_Suc: "(2::rat) powi (e + 1) = 2 * 2 powi e"
  by (simp add: power_int_add)

lemma powi2_mono: "m \<le> n \<Longrightarrow> (2::rat) powi m \<le> 2 powi n"
  by (rule power_int_increasing) simp_all

lemma powi2_strict_mono: "m < n \<Longrightarrow> (2::rat) powi m < 2 powi n"
  by (rule power_int_strict_increasing) simp_all

lemma ilog2_bounds:
  assumes "q \<noteq> 0"
  shows "2 powi ilog2 q \<le> \<bar>q\<bar>" and "\<bar>q\<bar> < 2 powi (ilog2 q + 1)"
proof -
  obtain a b where ab: "quotient_of \<bar>q\<bar> = (a, b)" by (cases "quotient_of \<bar>q\<bar>")
  have b: "0 < b" using ab by (rule quotient_of_denom_pos)
  have q: "\<bar>q\<bar> = of_int a / of_int b" using ab by (rule quotient_of_div)
  have "0 < \<bar>q\<bar>" using assms by simp
  then have a: "0 < a" using b unfolding q by (simp add: zero_less_divide_iff)
  define d where "d = bitlen a - bitlen b"
  have il: "ilog2 q = (if 2 powi d \<le> \<bar>q\<bar> then d else d - 1)"
    by (simp add: ilog2_def ab d_def Let_def)
  note ba = bitlen_bounds_rat [OF a] and bb = bitlen_bounds_rat [OF b]
  have bpos: "0 < (of_int b :: rat)" using b by simp
  have "2 powi (d - 1) * of_int b < (2 powi (d - 1) * 2 powi bitlen b :: rat)"
    using bb(2) by (simp add: mult_strict_left_mono)
  also have "\<dots> = 2 powi (bitlen a - 1)"
    by (simp add: d_def flip: power_int_add)
  also have "\<dots> \<le> of_int a" by (rule ba(1))
  finally have lo: "2 powi (d - 1) < \<bar>q\<bar>"
    unfolding q using bpos by (simp add: pos_less_divide_eq)
  have "(of_int a :: rat) < 2 powi bitlen a" by (rule ba(2))
  also have "\<dots> = 2 powi (d + 1) * 2 powi (bitlen b - 1)"
    by (simp add: d_def flip: power_int_add)
  also have "\<dots> \<le> 2 powi (d + 1) * of_int b"
    using bb(1) by (simp add: mult_left_mono)
  finally have hi: "\<bar>q\<bar> < 2 powi (d + 1)"
    unfolding q using bpos by (simp add: pos_divide_less_eq)
  show "2 powi ilog2 q \<le> \<bar>q\<bar>"
    using lo by (simp add: il)
  show "\<bar>q\<bar> < 2 powi (ilog2 q + 1)"
    using hi by (auto simp add: il)
qed

lemma ilog2_unique:
  assumes "2 powi e \<le> \<bar>q\<bar>" and "\<bar>q\<bar> < 2 powi (e + 1)"
  shows "ilog2 q = e"
proof -
  have "0 < \<bar>q\<bar>" using assms(1) powi2_pos [of e] by linarith
  then have q: "q \<noteq> 0" by simp
  note b = ilog2_bounds [OF q]
  have "(2::rat) powi e < 2 powi (ilog2 q + 1)"
    using assms(1) b(2) by (rule le_less_trans)
  then have 1: "e < ilog2 q + 1"
    by (metis powi2_mono not_less)
  have "(2::rat) powi ilog2 q < 2 powi (e + 1)"
    using b(1) assms(2) by (rule le_less_trans)
  then have 2: "ilog2 q < e + 1"
    by (metis powi2_mono not_less)
  from 1 2 show ?thesis by simp
qed

subsection \<open>Rounding to an integer\<close>

lemma round_half_even_of_int: "round_half_even (of_int n) = n"
  by (simp add: round_half_even_def)

lemma round_half_even_unfold:
  obtains f where "of_int f \<le> x" and "x < of_int f + 1" and "f = \<lfloor>x\<rfloor>"
    and "round_half_even x =
      (if x - of_int f < 1 / 2 then f else if 1 / 2 < x - of_int f then f + 1
       else if even f then f else f + 1)"
proof -
  define f where "f = \<lfloor>x\<rfloor>"
  have "of_int f \<le> x" "x < of_int f + 1" unfolding f_def by linarith+
  moreover have "round_half_even x =
      (if x - of_int f < 1 / 2 then f else if 1 / 2 < x - of_int f then f + 1
       else if even f then f else f + 1)"
    by (simp add: round_half_even_def Let_def f_def)
  ultimately show thesis using that f_def by blast
qed

lemma round_half_even_bounds:
  "of_int (round_half_even x) \<le> x + 1 / 2" "x - 1 / 2 \<le> of_int (round_half_even x)"
proof -
  obtain f where f: "of_int f \<le> x" "x < of_int f + 1"
    and r: "round_half_even x =
      (if x - of_int f < 1 / 2 then f else if 1 / 2 < x - of_int f then f + 1
       else if even f then f else f + 1)"
    by (rule round_half_even_unfold)
  show "of_int (round_half_even x) \<le> x + 1 / 2"
    unfolding r using f by (auto split: if_splits)
  show "x - 1 / 2 \<le> of_int (round_half_even x)"
    unfolding r using f by (auto split: if_splits)
qed

lemma round_half_even_ge:
  assumes "of_int n \<le> x"
  shows "n \<le> round_half_even x"
proof -
  have "n \<le> \<lfloor>x\<rfloor>" using assms by (simp add: le_floor_iff)
  then show ?thesis by (auto simp add: round_half_even_def Let_def)
qed

lemma round_half_even_le:
  assumes "x \<le> of_int n"
  shows "round_half_even x \<le> n"
proof (cases "x = of_int n")
  case True
  then show ?thesis by (simp add: round_half_even_of_int)
next
  case False
  with assms have "x < of_int n" by simp
  then have "\<lfloor>x\<rfloor> < n" by (simp add: floor_less_iff)
  then show ?thesis by (auto simp add: round_half_even_def Let_def)
qed

lemma round_half_even_minus: "round_half_even (- x) = - round_half_even x"
proof -
  obtain f where f: "of_int f \<le> x" "x < of_int f + 1"
    and r: "round_half_even x =
      (if x - of_int f < 1 / 2 then f else if 1 / 2 < x - of_int f then f + 1
       else if even f then f else f + 1)"
    by (rule round_half_even_unfold)
  show ?thesis
  proof (cases "x = of_int f")
    case True
    then show ?thesis
      by (simp only: of_int_minus [symmetric] round_half_even_of_int)
  next
    case False
    with f have lt: "of_int f < x" by simp
    have "\<lfloor>- x\<rfloor> = - f - 1"
      using lt f(2) by (intro floor_unique) simp_all
    then have r': "round_half_even (- x) =
      (if - x - of_int (- f - 1) < 1 / 2 then - f - 1
       else if 1 / 2 < - x - of_int (- f - 1) then - f - 1 + 1
       else if even (- f - 1) then - f - 1 else - f - 1 + 1)"
      by (simp add: round_half_even_def Let_def)
    show ?thesis
      unfolding r r' using lt f(2) by (auto split: if_splits)
  qed
qed

subsection \<open>Rounding to binary64\<close>

lemma ilog2_minus: "ilog2 (- q) = ilog2 q"
  by (simp add: ilog2_def)

lemma ilog2_abs: "ilog2 \<bar>q\<bar> = ilog2 q"
  by (simp add: ilog2_def)

lemma ulp_exp_minus: "ulp_exp (- q) = ulp_exp q"
  by (simp add: ulp_exp_def ilog2_minus)

lemma round_double_minus: "round_double (- q) = - round_double q"
  by (simp add: round_double_def ulp_exp_minus round_half_even_minus)

lemma round_double_abs: "round_double \<bar>q\<bar> = \<bar>round_double q\<bar>"
proof (cases "0 \<le> q")
  case True
  then have "0 \<le> q / 2 powi ulp_exp q" by simp
  then have "0 \<le> round_half_even (q / 2 powi ulp_exp q)"
    using round_half_even_ge [of 0] by simp
  then have "0 \<le> round_double q" by (simp add: round_double_def)
  with True show ?thesis by simp
next
  case False
  then have "0 \<le> - q" by simp
  then have "0 \<le> - q / 2 powi ulp_exp (- q)" by (intro divide_nonneg_pos) simp_all
  then have "0 \<le> round_half_even (- q / 2 powi ulp_exp (- q))"
    using round_half_even_ge [of 0] by simp
  then have "0 \<le> round_double (- q)" using False by (simp add: round_double_def)
  with False show ?thesis by (simp add: round_double_minus)
qed

lemma ilog2_mult_pow2:
  assumes "q \<noteq> 0"
  shows "ilog2 (q * 2 powi k) = ilog2 q + k"
proof (rule ilog2_unique)
  note b = ilog2_bounds [OF assms]
  have a: "\<bar>q * 2 powi k\<bar> = \<bar>q\<bar> * 2 powi k" by (simp add: abs_mult)
  show "2 powi (ilog2 q + k) \<le> \<bar>q * 2 powi k\<bar>"
    unfolding a using b(1) by (simp add: power_int_add)
  show "\<bar>q * 2 powi k\<bar> < 2 powi (ilog2 q + k + 1)"
    unfolding a using b(2) by (simp add: power_int_add)
qed

lemma round_double_scale:
  assumes "q \<noteq> 0" and "- 1022 \<le> ilog2 q" and "- 1022 \<le> ilog2 q + k"
  shows "round_double (q * 2 powi k) = round_double q * 2 powi k"
proof -
  have u: "ulp_exp q = ilog2 q - 52"
    using assms(2) by (simp add: ulp_exp_def)
  have u': "ulp_exp (q * 2 powi k) = ulp_exp q + k"
    using assms(2,3) by (simp add: ulp_exp_def ilog2_mult_pow2 [OF assms(1)])
  have "q * 2 powi k / 2 powi (ulp_exp q + k) = q / 2 powi ulp_exp q"
    by (simp add: power_int_add)
  then show ?thesis
    using assms(1) by (simp add: round_double_def u' power_int_add)
qed

lemma powi2_le_nonzero:
  assumes "2 powi e \<le> \<bar>q\<bar>"
  shows "q \<noteq> (0::rat)"
proof
  assume "q = 0"
  with assms have "(2::rat) powi e \<le> 0" by simp
  with powi2_pos [of e] show False by linarith
qed

lemma ilog2_ge:
  assumes "2 powi e \<le> \<bar>q\<bar>"
  shows "e \<le> ilog2 q"
proof -
  have q: "q \<noteq> 0" using assms by (rule powi2_le_nonzero)
  have "(2::rat) powi e < 2 powi (ilog2 q + 1)"
    using assms ilog2_bounds(2) [OF q] by (rule le_less_trans)
  then have "e < ilog2 q + 1" by (metis powi2_mono not_less)
  then show ?thesis by simp
qed

lemma ilog2_less:
  assumes "q \<noteq> 0" and "\<bar>q\<bar> < 2 powi e"
  shows "ilog2 q < e"
proof -
  have "(2::rat) powi ilog2 q < 2 powi e"
    using ilog2_bounds(1) [OF assms(1)] assms(2) by (rule le_less_trans)
  then show ?thesis by (metis powi2_mono not_less)
qed

lemma round_double_half:
  assumes "2 powi (- 1021) \<le> \<bar>q\<bar>"
  shows "round_double (q / 2) = round_double q / 2"
proof -
  have q: "q \<noteq> 0" using assms by (rule powi2_le_nonzero)
  have "- 1021 \<le> ilog2 q" using assms by (rule ilog2_ge)
  then have "round_double (q * 2 powi (- 1)) = round_double q * 2 powi (- 1)"
    using q by (intro round_double_scale) simp_all
  moreover have "(2::rat) powi (- 1) = 1 / 2" by simp
  ultimately show ?thesis by simp
qed

lemma round_double_twice:
  assumes "2 powi (- 1022) \<le> \<bar>q\<bar>"
  shows "round_double (2 * q) = 2 * round_double q"
proof -
  have q: "q \<noteq> 0" using assms by (rule powi2_le_nonzero)
  have "- 1022 \<le> ilog2 q" using assms by (rule ilog2_ge)
  then have "round_double (q * 2 powi 1) = round_double q * 2 powi 1"
    using q by (intro round_double_scale) simp_all
  then show ?thesis by (simp add: mult.commute)
qed

lemma powi2_of_int: "0 \<le> k \<Longrightarrow> (2::rat) powi k = of_int (2 ^ nat k)"
  by (simp add: power_int_def)

lemma ulp_exp_le:
  assumes "q \<noteq> 0" and "\<bar>q\<bar> \<le> 2 powi e" and "- 1074 \<le> e"
  shows "ulp_exp q \<le> e"
proof -
  have "(2::rat) powi ilog2 q \<le> 2 powi e"
    using ilog2_bounds(1) [OF assms(1)] assms(2) by (rule order_trans)
  then have "ilog2 q \<le> e" by (metis powi2_strict_mono not_less)
  with assms(3) show ?thesis by (simp add: ulp_exp_def)
qed

lemma round_double_le:
  assumes "- 1074 \<le> e" and "\<bar>q\<bar> \<le> 2 powi e"
  shows "\<bar>round_double q\<bar> \<le> 2 powi e"
proof (cases "q = 0")
  case True
  then show ?thesis by (simp add: round_double_def)
next
  case False
  define a where "a = \<bar>q\<bar>"
  have a: "a \<noteq> 0" "\<bar>a\<bar> \<le> 2 powi e" using False assms(2) by (simp_all add: a_def)
  define p where "p = ulp_exp a"
  have pe: "p \<le> e" unfolding p_def using a assms(1) by (rule ulp_exp_le)
  have "a / 2 powi p \<le> 2 powi e / 2 powi p"
    using a(2) by (simp add: divide_right_mono a_def)
  also have "\<dots> = 2 powi (e - p)" by (simp add: power_int_diff)
  also have "\<dots> = of_int (2 ^ nat (e - p))" using pe by (simp add: powi2_of_int)
  finally have "round_half_even (a / 2 powi p) \<le> 2 ^ nat (e - p)"
    by (rule round_half_even_le)
  then have "(of_int (round_half_even (a / 2 powi p)) :: rat) \<le> of_int (2 ^ nat (e - p))"
    by (simp only: of_int_le_iff)
  then have "of_int (round_half_even (a / 2 powi p)) * 2 powi p \<le> (2 powi (e - p) * 2 powi p :: rat)"
    using pe by (simp add: powi2_of_int)
  also have "(2 powi (e - p) * 2 powi p :: rat) = 2 powi e"
    by (simp flip: power_int_add)
  finally have "round_double a \<le> 2 powi e"
    using a(1) by (simp add: round_double_def p_def)
  then show ?thesis by (simp add: a_def round_double_abs)
qed

lemma round_double_ge:
  assumes "- 1074 \<le> e" and "2 powi e \<le> \<bar>q\<bar>"
  shows "2 powi e \<le> \<bar>round_double q\<bar>"
proof -
  have q: "q \<noteq> 0" using assms(2) by (rule powi2_le_nonzero)
  define a where "a = \<bar>q\<bar>"
  have a: "a \<noteq> 0" using q by (simp add: a_def)
  define i where "i = ilog2 a"
  have ei: "e \<le> i" unfolding i_def a_def ilog2_abs using assms(2) by (rule ilog2_ge)
  define p where "p = ulp_exp a"
  have pi: "p \<le> i" using ei assms(1) by (simp add: p_def ulp_exp_def i_def)
  have "2 powi i \<le> a"
    using ilog2_bounds(1) [OF a] by (simp add: i_def a_def)
  then have "2 powi i / 2 powi p \<le> a / 2 powi p"
    by (simp add: divide_right_mono)
  moreover have "(2::rat) powi i / 2 powi p = of_int (2 ^ nat (i - p))"
    using pi by (simp add: powi2_of_int flip: power_int_diff)
  ultimately have "2 ^ nat (i - p) \<le> round_half_even (a / 2 powi p)"
    by (simp only: round_half_even_ge)
  then have "(of_int (2 ^ nat (i - p)) :: rat) \<le> of_int (round_half_even (a / 2 powi p))"
    by (simp only: of_int_le_iff)
  then have le: "(2 powi (i - p) :: rat) \<le> of_int (round_half_even (a / 2 powi p))"
    using pi by (simp add: powi2_of_int)
  have "(2 powi i :: rat) = 2 powi (i - p) * 2 powi p"
    by (simp flip: power_int_add)
  also have "\<dots> \<le> of_int (round_half_even (a / 2 powi p)) * 2 powi p"
    using le by (rule mult_right_mono) simp
  also have "\<dots> = round_double a"
    using a by (simp add: round_double_def p_def)
  finally have "2 powi i \<le> round_double a" .
  moreover have "(2::rat) powi e \<le> 2 powi i" using ei by (rule powi2_mono)
  ultimately show ?thesis by (simp add: a_def round_double_abs)
qed

lemma round_double_exact:
  assumes "\<bar>m\<bar> < 2 ^ 53" and "- 1074 \<le> p"
  shows "round_double (of_int m * 2 powi p) = of_int m * 2 powi p"
proof (cases "m = 0")
  case True
  then show ?thesis by (simp add: round_double_def)
next
  case False
  define q :: rat where "q = of_int m * 2 powi p"
  have q: "q \<noteq> 0" using False by (simp add: q_def)
  define u where "u = ulp_exp q"
  have "(of_int \<bar>m\<bar> :: rat) < of_int (2 ^ 53)"
    using assms(1) by (simp only: of_int_less_iff)
  then have "\<bar>q\<bar> < 2 powi 53 * 2 powi p"
    by (simp add: q_def abs_mult)
  also have "\<dots> = 2 powi (p + 53)"
    by (simp add: power_int_add)
  finally have "ilog2 q < p + 53" using q by (intro ilog2_less)
  then have up: "u \<le> p" using assms(2) by (simp add: u_def ulp_exp_def)
  have "q / 2 powi u = of_int m * 2 powi (p - u)"
    by (simp add: q_def power_int_diff)
  also have "\<dots> = of_int (m * 2 ^ nat (p - u))"
    using up by (simp add: powi2_of_int)
  finally have "round_half_even (q / 2 powi u) = m * 2 ^ nat (p - u)"
    by (simp only: round_half_even_of_int)
  then have "round_double q = of_int (m * 2 ^ nat (p - u)) * 2 powi u"
    using q by (simp add: round_double_def u_def)
  also have "\<dots> = of_int m * (2 powi (p - u) * 2 powi u)"
    using up by (simp add: powi2_of_int)
  also have "\<dots> = q"
    by (simp add: q_def flip: power_int_add)
  finally show ?thesis by (simp add: q_def)
qed

lemma round_double_of_int:
  assumes "\<bar>m\<bar> < 2 ^ 53"
  shows "round_double (of_int m) = of_int m"
  using round_double_exact [OF assms, of 0] by simp

lemma round_double_numeral:
  assumes "(numeral n :: int) < 2 ^ 53"
  shows "round_double (numeral n) = numeral n"
  using round_double_of_int [of "numeral n"] assms by simp

lemma round_double_one: "round_double 1 = 1"
  using round_double_of_int [of 1] by simp

lemma round_double_zero: "round_double 0 = 0"
  by (simp add: round_double_def)

subsection \<open>Floats are fixed points of the rounding\<close>

lemma round_double_repr:
  "\<exists>m p. \<bar>m\<bar> < 2 ^ 53 \<and> - 1074 \<le> p \<and> round_double q = of_int m * 2 powi p"
proof (cases "q = 0")
  case True
  have "\<bar>0 :: int\<bar> < 2 ^ 53 \<and> - 1074 \<le> (0::int) \<and> round_double q = of_int 0 * 2 powi 0"
    using True by (simp add: round_double_def)
  then show ?thesis by blast
next
  case False
  define u where "u = ulp_exp q"
  define M where "M = round_half_even (q / 2 powi u)"
  have r: "round_double q = of_int M * 2 powi u"
    using False by (simp add: round_double_def u_def M_def)
  have u: "- 1074 \<le> u" "ilog2 q + 1 - u \<le> 53"
    by (simp_all add: u_def ulp_exp_def)
  define x where "x = q / 2 powi u"
  have "\<bar>x\<bar> = \<bar>q\<bar> / 2 powi u" by (simp add: x_def)
  also have "\<dots> < 2 powi (ilog2 q + 1) / 2 powi u"
    using ilog2_bounds(2) [OF False] by (simp add: divide_strict_right_mono)
  also have "\<dots> = 2 powi (ilog2 q + 1 - u)" by (simp add: power_int_diff)
  also have "\<dots> \<le> 2 powi 53" using u(2) by (rule powi2_mono)
  finally have "\<bar>x\<bar> < of_int (2 ^ 53)" by simp
  then have "x \<le> of_int (2 ^ 53)" "of_int (- (2 ^ 53)) \<le> x"
    by (simp_all add: abs_less_iff)
  then have M: "M \<le> 2 ^ 53" "- (2 ^ 53) \<le> M"
    unfolding M_def x_def [symmetric] by (simp_all only: round_half_even_le round_half_even_ge)
  show ?thesis
  proof (cases "\<bar>M\<bar> < 2 ^ 53")
    case True
    with u(1) r show ?thesis by blast
  next
    case False
    with M have "M = 2 ^ 53 \<or> M = - (2 ^ 53)" by linarith
    then have "round_double q = of_int (M div 2) * 2 powi (u + 1)" "\<bar>M div 2\<bar> < 2 ^ 53"
      by (auto simp add: r power_int_add)
    moreover have "- 1074 \<le> u + 1" using u(1) by simp
    ultimately show ?thesis by blast
  qed
qed

lemma round_double_idem: "round_double (round_double q) = round_double q"
proof -
  obtain m p where "\<bar>m\<bar> < 2 ^ 53" "- 1074 \<le> p" "round_double q = of_int m * 2 powi p"
    using round_double_repr by blast
  then show ?thesis by (simp add: round_double_exact)
qed

lemma round_double_twice_round: "round_double (round_double q * 2) = round_double q * 2"
proof -
  obtain m p where mp: "\<bar>m\<bar> < 2 ^ 53" "- 1074 \<le> p" "round_double q = of_int m * 2 powi p"
    using round_double_repr by blast
  have "round_double q * 2 = of_int m * 2 powi (p + 1)"
    by (simp add: mp(3) power_int_add)
  moreover have "- 1074 \<le> p + 1" using mp(2) by simp
  ultimately show ?thesis using mp(1) by (simp only: round_double_exact)
qed

subsection \<open>Evaluating the rounding\<close>

lemma round_double_eval:
  assumes "2 powi e \<le> \<bar>q\<bar>" and "\<bar>q\<bar> < 2 powi (e + 1)"
  shows "round_double q =
    of_int (round_half_even (q / 2 powi max (e - 52) (- 1074))) * 2 powi max (e - 52) (- 1074)"
proof -
  have "q \<noteq> 0" using assms(1) by (rule powi2_le_nonzero)
  moreover have "ilog2 q = e" using assms by (rule ilog2_unique)
  ultimately show ?thesis by (simp add: round_double_def ulp_exp_def)
qed

lemma round_half_even_divide:
  assumes "0 < b"
  shows "round_half_even (of_int a / of_int b) =
    (if 2 * (a mod b) < b then a div b
     else if b < 2 * (a mod b) then a div b + 1
     else if even (a div b) then a div b else a div b + 1)"
proof -
  have fl: "\<lfloor>(of_int a / of_int b :: rat)\<rfloor> = a div b"
    by (rule floor_divide_of_int_eq)
  have "(of_int a :: rat) = of_int (a div b * b + a mod b)"
    by (simp only: div_mult_mod_eq)
  also have "\<dots> = of_int (a div b) * of_int b + of_int (a mod b)"
    by (simp only: of_int_add of_int_mult)
  finally have "(of_int a / of_int b :: rat) - of_int (a div b) = of_int (a mod b) / of_int b"
    using assms by (simp add: field_simps)
  moreover have "(of_int (a mod b) / of_int b :: rat) < 1 / 2 \<longleftrightarrow> 2 * (a mod b) < b"
  proof -
    have "(of_int (a mod b) / of_int b :: rat) < 1 / 2 \<longleftrightarrow> (of_int (2 * (a mod b)) :: rat) < of_int b"
      using assms by (simp add: field_simps)
    then show ?thesis by (simp only: of_int_less_iff)
  qed
  moreover have "1 / 2 < (of_int (a mod b) / of_int b :: rat) \<longleftrightarrow> b < 2 * (a mod b)"
  proof -
    have "1 / 2 < (of_int (a mod b) / of_int b :: rat) \<longleftrightarrow> (of_int b :: rat) < of_int (2 * (a mod b))"
      using assms by (simp add: field_simps)
    then show ?thesis by (simp only: of_int_less_iff)
  qed
  ultimately show ?thesis
    by (simp only: round_half_even_def fl Let_def)
qed

lemma round_half_even_numeral_divide:
  "round_half_even (numeral a / numeral b) =
    (if 2 * (numeral a mod numeral b) < (numeral b :: int) then numeral a div numeral b
     else if (numeral b :: int) < 2 * (numeral a mod numeral b) then numeral a div numeral b + 1
     else if even (numeral a div numeral b :: int) then numeral a div numeral b
     else numeral a div numeral b + 1)"
  using round_half_even_divide [of "numeral b" "numeral a"] by simp

lemma round_half_even_numeral: "round_half_even (numeral a) = numeral a"
  using round_half_even_of_int [of "numeral a"] by simp

subsection \<open>The overflow threshold\<close>

lemma round_half_even_le_below_half:
  assumes "x < of_int n + 1 / 2"
  shows "round_half_even x \<le> n"
proof -
  have "(of_int (round_half_even x) :: rat) < of_int (n + 1)"
    using round_half_even_bounds(1) [of x] assms by simp
  then have "round_half_even x < n + 1" by (simp only: of_int_less_iff)
  then show ?thesis by simp
qed

lemma round_half_even_ge_even:
  assumes "of_int n - 1 / 2 \<le> x" and "even n"
  shows "n \<le> round_half_even x"
proof -
  obtain f where f: "of_int f \<le> x" "x < of_int f + 1"
    and r: "round_half_even x =
      (if x - of_int f < 1 / 2 then f else if 1 / 2 < x - of_int f then f + 1
       else if even f then f else f + 1)"
    by (rule round_half_even_unfold)
  have "(of_int (n - 1) :: rat) < of_int (f + 1)" using assms(1) f(2) by simp
  then have "n - 1 < f + 1" by (simp only: of_int_less_iff)
  then have nf: "n - 1 \<le> f" by simp
  show ?thesis
  proof (cases "n \<le> f")
    case True
    then show ?thesis unfolding r by (auto split: if_splits)
  next
    case False
    with nf have fn: "f = n - 1" by simp
    then have "odd f" using assms(2) by simp
    moreover have "1 / 2 \<le> x - of_int f" using assms(1) fn by simp
    ultimately show ?thesis unfolding r using fn by (auto split: if_splits)
  qed
qed

text \<open>
  The rounded value reaches the next power of two exactly from half a unit in the last
  place below it.
\<close>

lemma round_double_reaches_power:
  assumes "- 1022 \<le> e"
  shows "2 powi (e + 1) \<le> \<bar>round_double q\<bar> \<longleftrightarrow> 2 powi (e + 1) - 2 powi (e - 53) \<le> \<bar>q\<bar>"
proof -
  define a where "a = \<bar>q\<bar>"
  have ra: "\<bar>round_double q\<bar> = round_double a" by (simp add: a_def round_double_abs)
  have e1: "- 1074 \<le> e + 1" "- 1074 \<le> e" using assms by simp_all
  have half: "(2::rat) powi (e - 53) / 2 powi (e - 52) = 1 / 2"
    by (simp add: power_int_diff)
  have top: "(2::rat) powi (e + 1) / 2 powi (e - 52) = of_int (2 ^ 53)"
  proof -
    have "(2::rat) powi (e + 1) / 2 powi (e - 52) = 2 powi (e + 1 - (e - 52))"
      by (rule power_int_diff [symmetric]) simp
    then show ?thesis by simp
  qed
  have thr: "(2 powi (e + 1) - 2 powi (e - 53)) / 2 powi (e - 52) = (of_int (2 ^ 53) - 1 / 2 :: rat)"
    by (simp only: diff_divide_distrib half top)
  have lt: "(2::rat) powi e < 2 powi (e + 1) - 2 powi (e - 53)"
  proof -
    have "(2::rat) powi (e - 53) < 2 powi e" by (rule powi2_strict_mono) simp
    moreover have "(2::rat) powi (e + 1) = 2 powi e + 2 powi e" by (simp add: powi2_Suc)
    ultimately show ?thesis by linarith
  qed
  show ?thesis
  proof (cases "2 powi (e + 1) \<le> a")
    case True
    then have "2 powi (e + 1) \<le> \<bar>round_double q\<bar>"
      unfolding a_def using e1(1) by (intro round_double_ge)
    moreover have "2 powi (e + 1) - 2 powi (e - 53) \<le> a"
      using True powi2_pos [of "e - 53"] by linarith
    ultimately show ?thesis by (simp add: a_def)
  next
    case False
    then have hi: "a < 2 powi (e + 1)" by simp
    show ?thesis
    proof (cases "2 powi e \<le> a")
      case True
      have aa: "\<bar>a\<bar> = a" by (simp add: a_def)
      have bd: "2 powi e \<le> \<bar>a\<bar>" "\<bar>a\<bar> < 2 powi (e + 1)"
        using True hi by (simp_all only: aa)
      have il: "ilog2 a = e" using bd by (rule ilog2_unique)
      have a0: "a \<noteq> 0" using bd(1) by (rule powi2_le_nonzero)
      have rd: "round_double a = of_int (round_half_even (a / 2 powi (e - 52))) * 2 powi (e - 52)"
        using il a0 assms by (simp add: round_double_def ulp_exp_def)
      have pw: "(2::rat) powi (e + 1) = of_int (2 ^ 53) * 2 powi (e - 52)"
        using top by (simp add: field_simps)
      have "2 powi (e + 1) \<le> round_double a \<longleftrightarrow>
          (of_int (2 ^ 53) :: rat) \<le> of_int (round_half_even (a / 2 powi (e - 52)))"
        unfolding rd pw by (simp only: mult_le_cancel_right_pos zero_less_power_int zero_less_numeral)
      also have "\<dots> \<longleftrightarrow> 2 ^ 53 \<le> round_half_even (a / 2 powi (e - 52))"
        by (simp only: of_int_le_iff)
      also have "\<dots> \<longleftrightarrow> of_int (2 ^ 53) - 1 / 2 \<le> a / 2 powi (e - 52)"
      proof
        assume "2 ^ 53 \<le> round_half_even (a / 2 powi (e - 52))"
        then have "\<not> round_half_even (a / 2 powi (e - 52)) \<le> 2 ^ 53 - 1" by simp
        then have "\<not> a / 2 powi (e - 52) < of_int (2 ^ 53 - 1) + 1 / 2"
          using round_half_even_le_below_half by blast
        then show "of_int (2 ^ 53) - 1 / 2 \<le> a / 2 powi (e - 52)" by simp
      next
        assume "of_int (2 ^ 53) - 1 / 2 \<le> a / 2 powi (e - 52)"
        then show "2 ^ 53 \<le> round_half_even (a / 2 powi (e - 52))"
          by (rule round_half_even_ge_even) simp
      qed
      also have "\<dots> \<longleftrightarrow> (2 powi (e + 1) - 2 powi (e - 53)) / 2 powi (e - 52) \<le> a / 2 powi (e - 52)"
        by (simp only: thr)
      also have "\<dots> \<longleftrightarrow> 2 powi (e + 1) - 2 powi (e - 53) \<le> a"
      proof -
        have "\<not> (2::rat) powi (e - 52) < 0"
          using powi2_pos [of "e - 52"] by linarith
        then show ?thesis by (simp add: divide_le_cancel)
      qed
      finally show ?thesis by (simp only: ra a_def)
    next
      case False
      then have "\<bar>q\<bar> \<le> 2 powi e" by (simp add: a_def)
      then have "\<bar>round_double q\<bar> \<le> 2 powi e" using e1(2) by (intro round_double_le)
      moreover have "(2::rat) powi e < 2 powi (e + 1)" by (rule powi2_strict_mono) simp
      ultimately have "\<not> 2 powi (e + 1) \<le> \<bar>round_double q\<bar>" by linarith
      moreover have "\<not> 2 powi (e + 1) - 2 powi (e - 53) \<le> a"
        using False lt by linarith
      ultimately show ?thesis by (simp add: a_def)
    qed
  qed
qed

subsection \<open>Relative error\<close>

lemma round_double_rel_error:
  assumes "2 powi (- 1022) \<le> \<bar>q\<bar>"
  shows "\<bar>round_double q - q\<bar> \<le> \<bar>q\<bar> / 2 ^ 53"
proof -
  have q: "q \<noteq> 0" using assms by (rule powi2_le_nonzero)
  define i where "i = ilog2 q"
  have i: "- 1022 \<le> i" unfolding i_def using assms by (rule ilog2_ge)
  define u where "u = i - 52"
  have u: "ulp_exp q = u" using i by (simp add: ulp_exp_def u_def i_def)
  define x where "x = q / 2 powi u"
  have qx: "q = x * 2 powi u" by (simp add: x_def)
  have rd: "round_double q = of_int (round_half_even x) * 2 powi u"
    using q by (simp add: round_double_def u x_def)
  have "\<bar>of_int (round_half_even x) - x\<bar> \<le> 1 / 2"
    using round_half_even_bounds [of x] by linarith
  then have "\<bar>of_int (round_half_even x) - x\<bar> * 2 powi u \<le> 1 / 2 * 2 powi u"
    by (rule mult_right_mono) simp
  moreover have "\<bar>round_double q - q\<bar> = \<bar>of_int (round_half_even x) - x\<bar> * 2 powi u"
  proof -
    have "(of_int (round_half_even x) - x) * 2 powi u =
        of_int (round_half_even x) * 2 powi u - x * 2 powi u"
      by (rule left_diff_distrib)
    then have "round_double q - q = (of_int (round_half_even x) - x) * 2 powi u"
      by (simp only: rd qx [symmetric])
    then show ?thesis by (simp add: abs_mult)
  qed
  moreover have "(1 / 2 * 2 powi u :: rat) = 2 powi i / 2 ^ 53"
  proof -
    have "(2::rat) powi u = 2 powi i / 2 powi 52"
      unfolding u_def by (rule power_int_diff) simp
    then show ?thesis by simp
  qed
  moreover have "(2::rat) powi i / 2 ^ 53 \<le> \<bar>q\<bar> / 2 ^ 53"
    using ilog2_bounds(1) [OF q] by (simp add: i_def divide_right_mono)
  ultimately show ?thesis by linarith
qed

text \<open>
  One rounding step of an error analysis: \<open>z\<close> approximates \<open>y\<close> with relative error
  \<open>a\<close>, and its rounded value with relative error \<open>a + 2 / 2 ^ 53\<close>.
\<close>

lemma round_double_step:
  assumes "\<bar>z - y\<bar> \<le> a * \<bar>y\<bar>" and "0 \<le> a" and "a \<le> 1"
    and "2 powi (- 1022) \<le> \<bar>z\<bar>"
  shows "\<bar>round_double z - y\<bar> \<le> (a + 2 / 2 ^ 53) * \<bar>y\<bar>"
proof -
  have "\<bar>z\<bar> \<le> \<bar>y\<bar> + \<bar>z - y\<bar>" by linarith
  also have "\<dots> \<le> \<bar>y\<bar> + a * \<bar>y\<bar>" using assms(1) by simp
  also have "\<dots> \<le> \<bar>y\<bar> + 1 * \<bar>y\<bar>"
    using assms(3) by (intro add_left_mono mult_right_mono) simp_all
  finally have z: "\<bar>z\<bar> \<le> 2 * \<bar>y\<bar>" by simp
  have "\<bar>round_double z - z\<bar> \<le> \<bar>z\<bar> / 2 ^ 53"
    using assms(4) by (rule round_double_rel_error)
  also have "\<dots> \<le> 2 * \<bar>y\<bar> / 2 ^ 53" using z by (simp add: divide_right_mono)
  finally have "\<bar>round_double z - z\<bar> \<le> 2 / 2 ^ 53 * \<bar>y\<bar>" by simp
  moreover have "\<bar>round_double z - y\<bar> \<le> \<bar>round_double z - z\<bar> + \<bar>z - y\<bar>" by linarith
  ultimately have "\<bar>round_double z - y\<bar> \<le> 2 / 2 ^ 53 * \<bar>y\<bar> + a * \<bar>y\<bar>"
    using assms(1) by linarith
  then show ?thesis by (simp only: distrib_right add.commute)
qed

lemma rel_error_mult:
  assumes "\<bar>x - y\<bar> \<le> a * \<bar>y\<bar>"
  shows "\<bar>x * c - y * c\<bar> \<le> a * \<bar>y * c :: rat\<bar>"
proof -
  have "\<bar>x * c - y * c\<bar> = \<bar>x - y\<bar> * \<bar>c\<bar>"
    by (simp only: left_diff_distrib [symmetric] abs_mult)
  also have "\<dots> \<le> a * \<bar>y\<bar> * \<bar>c\<bar>"
    using assms by (rule mult_right_mono) simp
  finally show ?thesis by (simp only: abs_mult mult.assoc)
qed

lemma rel_error_divide:
  assumes "\<bar>x - y\<bar> \<le> a * \<bar>y\<bar>"
  shows "\<bar>x / c - y / c\<bar> \<le> a * \<bar>y / c :: rat\<bar>"
  using rel_error_mult [OF assms, of "inverse c"] by (simp only: divide_inverse)

section \<open>Float operations and the estimators\<close>

lemma translation_constants:
  "WORDS_PER_HOUR_TRANSLATION = 60000" "WORDS_PER_MIN_TRANSLATION = 1000" "GPU_TFLOPS = 90"
  by (simp_all add: WORDS_PER_HOUR_TRANSLATION_def WORDS_PER_MIN_TRANSLATION_def GPU_TFLOPS_def)

lemma float_overflow_powi: "float_overflow = 2 powi 1024"
  by (simp add: float_overflow_def)

lemma float_overflow_pos: "0 < float_overflow"
  by (simp add: float_overflow_def)

lemma float_result_Fin_iff:
  "float_result q = Fin r \<longleftrightarrow> r = round_double q \<and> \<bar>r\<bar> < float_overflow"
  using float_overflow_pos by (auto simp add: float_result_def Let_def)

lemma float_of_int_Inr_iff:
  "float_of_int i = Inr x \<longleftrightarrow>
     x = Fin (round_double (of_int i)) \<and> \<bar>round_double (of_int i)\<bar> < float_overflow"
  by (auto simp add: float_of_int_def Let_def)

lemma int_truediv_Inr_iff:
  "int_truediv a b = Inr x \<longleftrightarrow>
     b \<noteq> 0 \<and> x = Fin (round_double (of_int a / of_int b)) \<and>
     \<bar>round_double (of_int a / of_int b)\<bar> < float_overflow"
  by (auto simp add: int_truediv_def Let_def)

lemma int_truediv_Inl_iff:
  "int_truediv a b = Inl e \<longleftrightarrow>
     (b = 0 \<and> e = ZeroDivisionError) \<or>
     (b \<noteq> 0 \<and> e = OverflowError \<and> float_overflow \<le> \<bar>round_double (of_int a / of_int b)\<bar>)"
  by (auto simp add: int_truediv_def Let_def)

lemma float_of_int_small:
  assumes "\<bar>i\<bar> < 2 ^ 53"
  shows "float_of_int i = Inr (Fin (of_int i))"
proof -
  have "\<bar>of_int i :: rat\<bar> < of_int (2 ^ 53)"
    using assms by (simp only: of_int_abs [symmetric] of_int_less_iff)
  also have "\<dots> < float_overflow" by (simp add: float_overflow_def)
  finally show ?thesis
    by (simp add: float_of_int_Inr_iff round_double_of_int [OF assms])
qed

lemma float_of_int_numeral:
  "(numeral n :: int) < 2 ^ 53 \<Longrightarrow> float_of_int (numeral n) = Inr (Fin (numeral n))"
  using float_of_int_small [of "numeral n"] by simp

lemma float_mul_int_numeral:
  "(numeral n :: int) < 2 ^ 53 \<Longrightarrow> float_mul_int x (numeral n) = Inr (float_mul x (Fin (numeral n)))"
  by (simp add: float_mul_int_def float_of_int_numeral)

lemma FLOPS_PER_TOKEN_value: "FLOPS_PER_TOKEN = Inr (Fin 26000000000)"
  by (simp add: FLOPS_PER_TOKEN_def LLM_PARAMS_BILLIONS_def int_mul_float_def
      float_of_int_numeral float_result_def float_overflow_def round_double_numeral)

lemma flops_per_second_value:
  "int_mul_float GPU_TFLOPS (Fin 1000000000000) = Inr (Fin 90000000000000)"
  by (simp add: GPU_TFLOPS_def int_mul_float_def
      float_of_int_numeral float_result_def float_overflow_def round_double_numeral)

lemma translation_estimates_unfold:
  "translation_estimates w =
     (case int_truediv w 60000 of
        Inl e \<Rightarrow> Inl e
      | Inr gpu_hours \<Rightarrow>
          Inr (gpu_hours, float_mul (float_mul gpu_hours (Fin 3600)) (Fin 90),
               float_mul gpu_hours (Fin 2)))"
  by (simp add: translation_estimates_def translation_constants float_mul_int_numeral
      GPU_HOURLY_COST_def split: sum.splits)

lemma llm_chat_estimates_unfold:
  "llm_chat_estimates n =
     (case float_of_int (n * 3000) of
        Inl e \<Rightarrow> Inl e
      | Inr x \<Rightarrow>
          (case float_truediv (float_mul x (Fin 26000000000)) (Fin 90000000000000) of
             Inl e \<Rightarrow> Inl e
           | Inr gpu_seconds \<Rightarrow>
               (case float_truediv gpu_seconds (Fin 3600) of
                  Inl e \<Rightarrow> Inl e
                | Inr gpu_hours \<Rightarrow>
                    Inr (n * 3000, gpu_hours,
                         float_mul (float_mul gpu_hours (Fin 3600)) (Fin 90),
                         float_mul gpu_hours (Fin 2)))))"
  unfolding llm_chat_estimates_def FLOPS_PER_TOKEN_value flops_per_second_value
    TOKENS_PER_USER_PER_DAY_def Let_def
  by (simp add: int_mul_float_def float_truediv_int_def float_of_int_numeral
      float_mul_int_numeral GPU_TFLOPS_def GPU_HOURLY_COST_def split: sum.splits)

lemma float_mul_two:
  assumes "float_mul (Fin (round_double q)) (Fin 2) = Fin k"
  shows "k = round_double q * 2"
  using assms by (simp add: float_result_Fin_iff round_double_twice_round)

lemma float_mul_Fin:
  assumes "float_mul x (Fin b) = Fin r"
  shows "\<exists>a. x = Fin a \<and> r = round_double (a * b) \<and> \<bar>r\<bar> < float_overflow"
  using assms by (cases x) (auto simp add: float_result_Fin_iff split: if_splits)

lemma float_truediv_Fin:
  assumes "float_truediv x (Fin b) = Inr (Fin r)"
  shows "\<exists>a. x = Fin a \<and> b \<noteq> 0 \<and> r = round_double (a / b) \<and> \<bar>r\<bar> < float_overflow"
  using assms
  by (cases x) (auto simp add: float_truediv_def float_result_Fin_iff split: if_splits)

lemma translation_estimates_Inr:
  assumes "translation_estimates w = Inr (gh, tf, c)"
  shows "gh = Fin (round_double (of_int w / 60000))"
    and "tf = float_mul (float_mul gh (Fin 3600)) (Fin 90)"
    and "c = float_mul gh (Fin 2)"
  using assms
  by (auto simp add: translation_estimates_unfold int_truediv_Inr_iff split: sum.splits)

lemma llm_chat_estimates_Inr:
  assumes "llm_chat_estimates n = Inr (tok, gh, tf, c)"
  shows "tok = n * 3000"
    and "\<exists>x gs. float_of_int (n * 3000) = Inr x \<and>
           float_truediv (float_mul x (Fin 26000000000)) (Fin 90000000000000) = Inr gs \<and>
           float_truediv gs (Fin 3600) = Inr gh"
    and "tf = float_mul (float_mul gh (Fin 3600)) (Fin 90)"
    and "c = float_mul gh (Fin 2)"
  using assms
  by (auto simp add: llm_chat_estimates_unfold split: sum.splits)

subsection \<open>When the translation estimator raises\<close>

lemma round_double_overflow_iff:
  "float_overflow \<le> \<bar>round_double q\<bar> \<longleftrightarrow> 2 powi 1024 - 2 powi 970 \<le> \<bar>q\<bar>"
  using round_double_reaches_power [of 1023 q] by (simp only: float_overflow_powi) simp

lemma int_truediv_overflow_iff:
  assumes "0 < b"
  shows "int_truediv a b = Inl OverflowError \<longleftrightarrow> b * (2 ^ 1024 - 2 ^ 970) \<le> \<bar>a\<bar>"
proof -
  have bpos: "0 < (of_int b :: rat)" using assms by simp
  have "int_truediv a b = Inl OverflowError \<longleftrightarrow>
      2 powi 1024 - 2 powi 970 \<le> \<bar>of_int a / of_int b :: rat\<bar>"
    using assms by (simp add: int_truediv_Inl_iff round_double_overflow_iff)
  also have "\<bar>of_int a / of_int b :: rat\<bar> = of_int \<bar>a\<bar> / of_int b"
    using assms by simp
  also have "2 powi 1024 - 2 powi 970 \<le> (of_int \<bar>a\<bar> / of_int b :: rat) \<longleftrightarrow>
      (2 powi 1024 - 2 powi 970) * of_int b \<le> (of_int \<bar>a\<bar> :: rat)"
    using bpos by (rule pos_le_divide_eq)
  also have "((2 powi 1024 - 2 powi 970) * of_int b :: rat) = of_int (b * (2 ^ 1024 - 2 ^ 970))"
    by (simp only: power_int_numeral of_int_mult of_int_diff of_int_power of_int_numeral mult.commute)
  also have "(of_int (b * (2 ^ 1024 - 2 ^ 970)) :: rat) \<le> of_int \<bar>a\<bar> \<longleftrightarrow>
      b * (2 ^ 1024 - 2 ^ 970) \<le> \<bar>a\<bar>"
    by (rule of_int_le_iff)
  finally show ?thesis .
qed

lemma translation_estimates_Inl:
  "translation_estimates w = Inl e \<longleftrightarrow> int_truediv w 60000 = Inl e"
  by (simp add: translation_estimates_unfold split: sum.splits)

lemma translation_estimates_raises_iff:
  "translation_estimates w = Inl e \<longleftrightarrow>
     e = OverflowError \<and> 60000 * (2 ^ 1024 - 2 ^ 970) \<le> \<bar>w\<bar>"
proof (cases e)
  case ZeroDivisionError
  then show ?thesis by (simp add: translation_estimates_Inl int_truediv_Inl_iff)
next
  case OverflowError
  then show ?thesis
    using int_truediv_overflow_iff [of 60000 w] by (simp only: translation_estimates_Inl) simp
qed

subsection \<open>Halving and doubling\<close>

lemma quotient_at_least_power:
  assumes "0 < d" and "d \<le> \<bar>w\<bar> * 2 ^ k"
  shows "2 powi (- int k) \<le> \<bar>of_int w / of_int d :: rat\<bar>"
proof -
  have dpos: "0 < (of_int d :: rat)" using assms(1) by simp
  have "(of_int d :: rat) \<le> of_int (\<bar>w\<bar> * 2 ^ k)"
    using assms(2) by (simp only: of_int_le_iff)
  then have "(of_int d :: rat) \<le> of_int \<bar>w\<bar> * 2 ^ k" by simp
  then have "1 / 2 ^ k \<le> (of_int \<bar>w\<bar> / of_int d :: rat)"
    using dpos by (simp add: field_simps)
  moreover have "(2::rat) powi (- int k) = 1 / 2 ^ k"
    by (simp add: power_int_minus divide_inverse)
  moreover have "\<bar>of_int w / of_int d :: rat\<bar> = \<bar>of_int w\<bar> / \<bar>of_int d\<bar>"
    by (rule abs_divide)
  moreover have "\<bar>of_int d :: rat\<bar> = of_int d" using dpos by (rule abs_of_pos)
  moreover have "\<bar>of_int w :: rat\<bar> = of_int \<bar>w\<bar>" by (rule of_int_abs [symmetric])
  ultimately show ?thesis by (simp only:)
qed

lemma int_truediv_half:
  assumes "0 < d" and "w = 0 \<or> d \<le> \<bar>w\<bar> * 2 ^ 1021" and "int_truediv w d = Inr (Fin m)"
  shows "int_truediv w (2 * d) = Inr (Fin (m / 2))"
proof -
  define q :: rat where "q = of_int w / of_int d"
  have m: "m = round_double q" "\<bar>m\<bar> < float_overflow"
    using assms(3) by (simp_all add: int_truediv_Inr_iff q_def)
  have q2: "(of_int w / of_int (2 * d) :: rat) = q / 2" by (simp add: q_def)
  have "round_double (q / 2) = round_double q / 2"
  proof (cases "w = 0")
    case True
    then show ?thesis by (simp add: q_def round_double_zero)
  next
    case False
    with assms(2) have "d \<le> \<bar>w\<bar> * 2 ^ 1021" by blast
    with assms(1) have "2 powi (- int 1021) \<le> \<bar>q\<bar>"
      unfolding q_def by (rule quotient_at_least_power)
    then have "2 powi (- 1021) \<le> \<bar>q\<bar>" by (simp only: of_nat_numeral)
    then show ?thesis by (rule round_double_half)
  qed
  then have r: "round_double (of_int w / of_int (2 * d)) = m / 2"
    by (simp only: q2 m(1))
  have "\<bar>m / 2\<bar> \<le> \<bar>m\<bar>" by simp
  with m(2) have "\<bar>m / 2\<bar> < float_overflow" by linarith
  with r assms(1) show ?thesis by (simp add: int_truediv_Inr_iff)
qed

lemma float_result_half:
  assumes "float_result q = Fin r" and "2 powi (- 1021) \<le> \<bar>q\<bar>"
  shows "float_result (q / 2) = Fin (r / 2)"
proof -
  have r: "r = round_double q" "\<bar>r\<bar> < float_overflow"
    using assms(1) by (auto simp add: float_result_Fin_iff)
  have "round_double (q / 2) = r / 2"
    using assms(2) by (simp only: r(1) round_double_half)
  moreover have "\<bar>r / 2\<bar> \<le> \<bar>r\<bar>" by simp
  ultimately show ?thesis using r(2) by (simp add: float_result_Fin_iff)
qed

lemma above_one_normal:
  assumes "2 powi e \<le> \<bar>q\<bar>" and "- 1021 \<le> e"
  shows "2 powi (- 1021) \<le> \<bar>q :: rat\<bar>"
  using powi2_mono [OF assms(2)] assms(1) by (rule order_trans)

lemma float_of_int_half:
  assumes "float_of_int (2 * i) = Inr (Fin r)" and "i \<noteq> 0"
  shows "float_of_int i = Inr (Fin (r / 2))" and "2 powi 0 \<le> \<bar>r\<bar>"
proof -
  have r: "r = round_double (of_int (2 * i))" "\<bar>r\<bar> < float_overflow"
    using assms(1) by (auto simp add: float_of_int_Inr_iff)
  have "1 \<le> \<bar>2 * i\<bar>" using assms(2) by simp
  then have "(1::rat) \<le> of_int \<bar>2 * i\<bar>" by (simp only: of_int_1_le_iff)
  then have one: "2 powi 0 \<le> \<bar>of_int (2 * i) :: rat\<bar>" by simp
  then show "2 powi 0 \<le> \<bar>r\<bar>" unfolding r(1) by (intro round_double_ge) simp_all
  have "2 powi (- 1021) \<le> \<bar>of_int (2 * i) :: rat\<bar>"
    using one by (rule above_one_normal) simp
  then have "round_double (of_int (2 * i) / 2) = r / 2"
    by (simp only: r(1) round_double_half)
  moreover have "(of_int (2 * i) / 2 :: rat) = of_int i" by simp
  moreover have "\<bar>r / 2\<bar> \<le> \<bar>r\<bar>" by simp
  ultimately show "float_of_int i = Inr (Fin (r / 2))"
    using r(2) by (simp add: float_of_int_Inr_iff)
qed

text \<open>
  The chain of roundings behind finite resource-hours. For a non-zero user count every
  value of the chain is at least \<open>2 powi - 59\<close> in magnitude, far from the subnormal
  range.
\<close>

lemma llm_chat_estimates_chain:
  assumes "llm_chat_estimates n = Inr (tok, Fin h, tf, c)"
  obtains r0 r1 r2 where
    "float_of_int (n * 3000) = Inr (Fin r0)"
    "float_result (r0 * 26000000000) = Fin r1"
    "float_result (r1 / 90000000000000) = Fin r2"
    "float_result (r2 / 3600) = Fin h"
proof -
  obtain x gs where x: "float_of_int (n * 3000) = Inr x"
    and gs: "float_truediv (float_mul x (Fin 26000000000)) (Fin 90000000000000) = Inr gs"
    and gh: "float_truediv gs (Fin 3600) = Inr (Fin h)"
    using llm_chat_estimates_Inr(2) [OF assms] by blast
  obtain r2 where r2: "gs = Fin r2" "h = round_double (r2 / 3600)" "\<bar>h\<bar> < float_overflow"
    using float_truediv_Fin [OF gh] by blast
  obtain r1 where r1: "float_mul x (Fin 26000000000) = Fin r1"
      "r2 = round_double (r1 / 90000000000000)" "\<bar>r2\<bar> < float_overflow"
    using float_truediv_Fin [OF gs [unfolded r2(1)]] by blast
  obtain r0 where r0: "x = Fin r0" "r1 = round_double (r0 * 26000000000)" "\<bar>r1\<bar> < float_overflow"
    using float_mul_Fin [OF r1(1)] by blast
  show thesis
  proof (rule that)
    show "float_of_int (n * 3000) = Inr (Fin r0)" using x r0(1) by simp
    show "float_result (r0 * 26000000000) = Fin r1" using r0(2,3) by (simp add: float_result_Fin_iff)
    show "float_result (r1 / 90000000000000) = Fin r2" using r1(2,3) by (simp add: float_result_Fin_iff)
    show "float_result (r2 / 3600) = Fin h" using r2(2,3) by (simp add: float_result_Fin_iff)
  qed
qed

lemma float_result_at_least:
  assumes "float_result q = Fin r" and "2 powi e \<le> \<bar>q\<bar>" and "- 1074 \<le> e"
  shows "2 powi e \<le> \<bar>r\<bar>"
proof -
  have "r = round_double q" using assms(1) by (simp add: float_result_Fin_iff)
  then show ?thesis using assms(2,3) by (simp only: round_double_ge)
qed

lemma llm_chat_estimates_chain_normal:
  assumes "n \<noteq> 0"
    and "float_of_int (n * 3000) = Inr (Fin r0)"
    and "float_result (r0 * 26000000000) = Fin r1"
    and "float_result (r1 / 90000000000000) = Fin r2"
    and "float_result (r2 / 3600) = Fin h"
  shows "2 powi 0 \<le> \<bar>of_int (n * 3000) :: rat\<bar>"
    and "2 powi 0 \<le> \<bar>r0 * 26000000000\<bar>"
    and "2 powi (- 47) \<le> \<bar>r1 / 90000000000000\<bar>"
    and "2 powi (- 59) \<le> \<bar>r2 / 3600\<bar>"
    and "2 powi (- 59) \<le> \<bar>h\<bar>"
proof -
  have "1 \<le> \<bar>n * 3000\<bar>" using assms(1) by simp
  then have "(1::rat) \<le> of_int \<bar>n * 3000\<bar>" by (simp only: of_int_1_le_iff)
  then show bT: "2 powi 0 \<le> \<bar>of_int (n * 3000) :: rat\<bar>" by simp
  have "r0 = round_double (of_int (n * 3000))"
    using assms(2) by (simp add: float_of_int_Inr_iff)
  then have b0: "2 powi 0 \<le> \<bar>r0\<bar>" using bT by (simp only: round_double_ge) 
  show b1q: "2 powi 0 \<le> \<bar>r0 * 26000000000\<bar>"
  proof -
    have "1 \<le> \<bar>r0\<bar>" using b0 by simp
    then have "1 * 1 \<le> \<bar>r0\<bar> * 26000000000" by (intro mult_mono) simp_all
    then show ?thesis by (simp add: abs_mult)
  qed
  have b1: "2 powi 0 \<le> \<bar>r1\<bar>"
    using assms(3) b1q by (rule float_result_at_least) simp
  show b2q: "2 powi (- 47) \<le> \<bar>r1 / 90000000000000\<bar>"
  proof -
    have "1 \<le> \<bar>r1\<bar>" using b1 by simp
    then have "1 / 90000000000000 \<le> \<bar>r1\<bar> / 90000000000000" by (simp add: divide_right_mono)
    moreover have "(2::rat) powi (- 47) \<le> 1 / 90000000000000" by simp
    ultimately have "2 powi (- 47) \<le> \<bar>r1\<bar> / 90000000000000" by (rule order_trans [rotated])
    then show ?thesis by (simp only: abs_divide abs_numeral)
  qed
  have b2: "2 powi (- 47) \<le> \<bar>r2\<bar>"
    using assms(4) b2q by (rule float_result_at_least) simp
  show b3q: "2 powi (- 59) \<le> \<bar>r2 / 3600\<bar>"
  proof -
    have "2 powi (- 47) / 3600 \<le> \<bar>r2\<bar> / 3600"
      using b2 by (simp only: divide_right_mono zero_le_numeral)
    moreover have "(2::rat) powi (- 59) \<le> 2 powi (- 47) / 3600" by simp
    ultimately have "2 powi (- 59) \<le> \<bar>r2\<bar> / 3600" by (rule order_trans [rotated])
    then show ?thesis by (simp only: abs_divide abs_numeral)
  qed
  show "2 powi (- 59) \<le> \<bar>h\<bar>"
    using assms(5) b3q by (rule float_result_at_least) simp
qed

lemma scaled_up_at_least:
  assumes "2 powi e \<le> \<bar>x\<bar>" and "1 \<le> k"
  shows "2 powi e \<le> \<bar>x * k :: rat\<bar>"
proof -
  have "2 powi e * 1 \<le> \<bar>x\<bar> * k" using assms by (intro mult_mono) simp_all
  then show ?thesis using assms(2) by (simp add: abs_mult)
qed

lemma llm_chat_estimates_half:
  assumes "N \<noteq> 0" and "llm_chat_estimates (2 * N) = Inr (tok2, Fin h2, tf2, Fin c2)"
  shows "\<exists>tf. llm_chat_estimates N = Inr (N * 3000, Fin (h2 / 2), tf, Fin (c2 / 2))"
    and "tok2 = 2 * (N * 3000)"
proof -
  show "tok2 = 2 * (N * 3000)"
    using llm_chat_estimates_Inr(1) [OF assms(2)] by simp
  obtain r0 r1 r2 where ch: "float_of_int (2 * N * 3000) = Inr (Fin r0)"
    "float_result (r0 * 26000000000) = Fin r1"
    "float_result (r1 / 90000000000000) = Fin r2"
    "float_result (r2 / 3600) = Fin h2"
    using assms(2) by (rule llm_chat_estimates_chain)
  have N2: "2 * N \<noteq> 0" using assms(1) by simp
  note b = llm_chat_estimates_chain_normal [OF N2 ch]
  have c2: "float_result (h2 * 2) = Fin c2"
    using llm_chat_estimates_Inr(4) [OF assms(2)] by simp
  \<comment> \<open>halving commutes with each rounding of the chain\<close>
  have "float_of_int (2 * (N * 3000)) = Inr (Fin r0)"
    using ch(1) by (simp add: mult.assoc)
  then have h0: "float_of_int (N * 3000) = Inr (Fin (r0 / 2))"
    by (rule float_of_int_half) (use assms(1) in simp)
  have h1: "float_result (r0 * 26000000000 / 2) = Fin (r1 / 2)"
    using ch(2) by (rule float_result_half) (rule above_one_normal [OF b(2)], simp)
  have h2: "float_result (r1 / 90000000000000 / 2) = Fin (r2 / 2)"
    using ch(3) by (rule float_result_half) (rule above_one_normal [OF b(3)], simp)
  have h3: "float_result (r2 / 3600 / 2) = Fin (h2 / 2)"
    using ch(4) by (rule float_result_half) (rule above_one_normal [OF b(4)], simp)
  have "2 powi (- 59) \<le> \<bar>h2 * 2\<bar>"
    using b(5) by (rule scaled_up_at_least) simp
  then have h4: "float_result (h2 * 2 / 2) = Fin (c2 / 2)"
    using c2 by (intro float_result_half above_one_normal [where e = "- 59"]) simp_all
  have "llm_chat_estimates N =
      Inr (N * 3000, Fin (h2 / 2), float_mul (float_mul (Fin (h2 / 2)) (Fin 3600)) (Fin 90),
           Fin (c2 / 2))"
    using h0 h1 h2 h3 h4
    by (simp add: llm_chat_estimates_unfold float_truediv_def)
  then show "\<exists>tf. llm_chat_estimates N = Inr (N * 3000, Fin (h2 / 2), tf, Fin (c2 / 2))"
    by blast
qed

subsection \<open>The recomputed total of operations\<close>

lemma direct_tflops_eq: "direct_tflops n = of_int (n * 3000) * 26000000000 / 1000000000000"
  by (simp add: direct_tflops_def TOKENS_PER_USER_PER_DAY_def LLM_PARAMS_BILLIONS_def)

lemma llm_chat_estimates_exact_total:
  "fst (snd (snd (llm_chat_estimates_exact n))) = direct_tflops n"
  by (simp add: llm_chat_estimates_exact_def direct_tflops_def Let_def GPU_TFLOPS_def)

lemma llm_chat_estimates_0: "llm_chat_estimates 0 = Inr (0, Fin 0, Fin 0, Fin 0)"
  by (simp add: llm_chat_estimates_unfold float_of_int_def float_truediv_def float_result_def
      round_double_zero float_overflow_pos not_le Let_def)

lemma at_least_normal:
  assumes "2 powi e \<le> \<bar>q\<bar>" and "- 1022 \<le> e"
  shows "2 powi (- 1022) \<le> \<bar>q :: rat\<bar>"
  using powi2_mono [OF assms(2)] assms(1) by (rule order_trans)

lemma llm_chat_estimates_total_error:
  assumes "llm_chat_estimates n = Inr (tok, gh, Fin tf, c)"
  shows "\<bar>tf - direct_tflops n\<bar> \<le> \<bar>direct_tflops n\<bar> / 2 ^ 49"
proof (cases "n = 0")
  case True
  with assms have "tf = 0" by (simp add: llm_chat_estimates_0)
  with True show ?thesis by (simp add: direct_tflops_eq)
next
  case False
  obtain r4 where r4: "float_mul gh (Fin 3600) = Fin r4" "tf = round_double (r4 * 90)"
    using float_mul_Fin [OF llm_chat_estimates_Inr(3) [OF assms, symmetric]] by blast
  obtain h where h: "gh = Fin h" "r4 = round_double (h * 3600)"
    using float_mul_Fin [OF r4(1)] by blast
  obtain r0 r1 r2 where ch: "float_of_int (n * 3000) = Inr (Fin r0)"
    "float_result (r0 * 26000000000) = Fin r1"
    "float_result (r1 / 90000000000000) = Fin r2"
    "float_result (r2 / 3600) = Fin h"
    using assms [unfolded h(1)] by (rule llm_chat_estimates_chain)
  define T :: rat where "T = of_int (n * 3000)"
  have r: "r0 = round_double T" "r1 = round_double (r0 * 26000000000)"
    "r2 = round_double (r1 / 90000000000000)" "h = round_double (r2 / 3600)"
    using ch by (simp_all add: float_of_int_Inr_iff float_result_Fin_iff T_def)
  \<comment> \<open>no operand of a rounding is subnormal\<close>
  note b = llm_chat_estimates_chain_normal [OF False ch, folded T_def]
  have b4: "2 powi (- 59) \<le> \<bar>h * 3600\<bar>"
    using b(5) by (rule scaled_up_at_least) simp
  then have "2 powi (- 59) \<le> \<bar>r4\<bar>"
    unfolding h(2) by (intro round_double_ge) simp_all
  then have b5: "2 powi (- 59) \<le> \<bar>r4 * 90\<bar>"
    by (rule scaled_up_at_least) simp
  have n0: "2 powi (- 1022) \<le> \<bar>T\<bar>" using b(1) by (rule at_least_normal) simp
  have n1: "2 powi (- 1022) \<le> \<bar>r0 * 26000000000\<bar>" using b(2) by (rule at_least_normal) simp
  have n2: "2 powi (- 1022) \<le> \<bar>r1 / 90000000000000\<bar>" using b(3) by (rule at_least_normal) simp
  have n3: "2 powi (- 1022) \<le> \<bar>r2 / 3600\<bar>" using b(4) by (rule at_least_normal) simp
  have n4: "2 powi (- 1022) \<le> \<bar>h * 3600\<bar>" using b4 by (rule at_least_normal) simp
  have n5: "2 powi (- 1022) \<le> \<bar>r4 * 90\<bar>" using b5 by (rule at_least_normal) simp
  \<comment> \<open>each rounding adds at most two units of relative error\<close>
  have e0: "\<bar>r0 - T\<bar> \<le> (0 + 2 / 2 ^ 53) * \<bar>T\<bar>"
    unfolding r(1) by (rule round_double_step [OF _ _ _ n0]) simp_all
  have e1: "\<bar>r1 - T * 26000000000\<bar> \<le> (0 + 2 / 2 ^ 53 + 2 / 2 ^ 53) * \<bar>T * 26000000000\<bar>"
    unfolding r(2)
    by (rule round_double_step [OF rel_error_mult [OF e0] _ _ n1]) simp_all
  have e2: "\<bar>r2 - T * 26000000000 / 90000000000000\<bar>
      \<le> (0 + 2 / 2 ^ 53 + 2 / 2 ^ 53 + 2 / 2 ^ 53) * \<bar>T * 26000000000 / 90000000000000\<bar>"
    unfolding r(3)
    by (rule round_double_step [OF rel_error_divide [OF e1] _ _ n2]) simp_all
  have e3: "\<bar>h - T * 26000000000 / 90000000000000 / 3600\<bar>
      \<le> (0 + 2 / 2 ^ 53 + 2 / 2 ^ 53 + 2 / 2 ^ 53 + 2 / 2 ^ 53) *
        \<bar>T * 26000000000 / 90000000000000 / 3600\<bar>"
    unfolding r(4)
    by (rule round_double_step [OF rel_error_divide [OF e2] _ _ n3]) simp_all
  have e4: "\<bar>r4 - T * 26000000000 / 90000000000000 / 3600 * 3600\<bar>
      \<le> (0 + 2 / 2 ^ 53 + 2 / 2 ^ 53 + 2 / 2 ^ 53 + 2 / 2 ^ 53 + 2 / 2 ^ 53) *
        \<bar>T * 26000000000 / 90000000000000 / 3600 * 3600\<bar>"
    unfolding h(2)
    by (rule round_double_step [OF rel_error_mult [OF e3] _ _ n4]) simp_all
  have e5: "\<bar>tf - T * 26000000000 / 90000000000000 / 3600 * 3600 * 90\<bar>
      \<le> (0 + 2 / 2 ^ 53 + 2 / 2 ^ 53 + 2 / 2 ^ 53 + 2 / 2 ^ 53 + 2 / 2 ^ 53 + 2 / 2 ^ 53) *
        \<bar>T * 26000000000 / 90000000000000 / 3600 * 3600 * 90\<bar>"
    unfolding r4(2)
    by (rule round_double_step [OF rel_error_mult [OF e4] _ _ n5]) simp_all
  have d: "T * 26000000000 / 90000000000000 / 3600 * 3600 * 90 = direct_tflops n"
    by (simp add: direct_tflops_eq T_def)
  have "\<bar>tf - direct_tflops n\<bar> \<le> 12 / 2 ^ 53 * \<bar>direct_tflops n\<bar>"
    using e5 unfolding d by simp
  also have "\<dots> \<le> 16 / 2 ^ 53 * \<bar>direct_tflops n\<bar>"
    by (intro mult_right_mono) simp_all
  finally show ?thesis by simp
qed

section \<open>The estimators on concrete inputs\<close>

text \<open>
  Each float operation is evaluated with \<open>round_double_eval\<close>, at the binary exponent of
  its exact result.
\<close>

lemmas float_eval =
  float_result_def float_overflow_def round_half_even_numeral_divide round_half_even_numeral

subsection \<open>The documented scenarios\<close>

lemma translation_estimates_10000:
  "translation_estimates 10000 =
     Inr (Fin (6004799503160661 / 36028797018963968), Fin 54000,
          Fin (6004799503160661 / 18014398509481984))"
proof -
  have s1: "int_truediv 10000 60000 = Inr (Fin (6004799503160661 / 36028797018963968))"
    using round_double_eval [where e = "-3" and q = "10000 / 60000"]
    by (simp add: int_truediv_def float_eval)
  have s2: "float_mul (Fin (6004799503160661 / 36028797018963968)) (Fin 3600) = Fin 600"
    using round_double_eval
      [where e = "9" and q = "(6004799503160661 / 36028797018963968) * 3600"]
    by (simp add: float_eval)
  have s3: "float_mul (Fin 600) (Fin 90) = Fin 54000"
    using round_double_eval [where e = "15" and q = "600 * 90"]
    by (simp add: float_eval)
  have s4:
    "float_mul (Fin (6004799503160661 / 36028797018963968)) (Fin 2) =
       Fin (6004799503160661 / 18014398509481984)"
    using round_double_eval
      [where e = "-2" and q = "(6004799503160661 / 36028797018963968) * 2"]
    by (simp add: float_eval)
  show ?thesis
    by (simp only: translation_estimates_unfold s1 s2 s3 s4 sum.case)
qed

lemma translation_estimates_100000:
  "translation_estimates 100000 =
     Inr (Fin (7505999378950827 / 4503599627370496), Fin 540000,
          Fin (7505999378950827 / 2251799813685248))"
proof -
  have s1: "int_truediv 100000 60000 = Inr (Fin (7505999378950827 / 4503599627370496))"
    using round_double_eval [where e = "0" and q = "100000 / 60000"]
    by (simp add: int_truediv_def float_eval)
  have s2: "float_mul (Fin (7505999378950827 / 4503599627370496)) (Fin 3600) = Fin 6000"
    using round_double_eval
      [where e = "12" and q = "(7505999378950827 / 4503599627370496) * 3600"]
    by (simp add: float_eval)
  have s3: "float_mul (Fin 6000) (Fin 90) = Fin 540000"
    using round_double_eval [where e = "19" and q = "6000 * 90"]
    by (simp add: float_eval)
  have s4:
    "float_mul (Fin (7505999378950827 / 4503599627370496)) (Fin 2) =
       Fin (7505999378950827 / 2251799813685248)"
    using round_double_eval [where e = "1" and q = "(7505999378950827 / 4503599627370496) * 2"]
    by (simp add: float_eval)
  show ?thesis
    by (simp only: translation_estimates_unfold s1 s2 s3 s4 sum.case)
qed

lemma translation_estimates_1000000:
  "translation_estimates 1000000 =
     Inr (Fin (4691249611844267 / 281474976710656), Fin (5798205849600001 / 1073741824),
          Fin (4691249611844267 / 140737488355328))"
proof -
  have s1: "int_truediv 1000000 60000 = Inr (Fin (4691249611844267 / 281474976710656))"
    using round_double_eval [where e = "4" and q = "1000000 / 60000"]
    by (simp add: int_truediv_def float_eval)
  have s2:
    "float_mul (Fin (4691249611844267 / 281474976710656)) (Fin 3600) =
       Fin (8246337208320001 / 137438953472)"
    using round_double_eval
      [where e = "15" and q = "(4691249611844267 / 281474976710656) * 3600"]
    by (simp add: float_eval)
  have s3:
    "float_mul (Fin (8246337208320001 / 137438953472)) (Fin 90) =
       Fin (5798205849600001 / 1073741824)"
    using round_double_eval [where e = "22" and q = "(8246337208320001 / 137438953472) * 90"]
    by (simp add: float_eval)
  have s4:
    "float_mul (Fin (4691249611844267 / 281474976710656)) (Fin 2) =
       Fin (4691249611844267 / 140737488355328)"
    using round_double_eval [where e = "5" and q = "(4691249611844267 / 281474976710656) * 2"]
    by (simp add: float_eval)
  show ?thesis
    by (simp only: translation_estimates_unfold s1 s2 s3 s4 sum.case)
qed

lemma translation_doc_time_10000_1:
  "translation_doc_time 10000 1 = Inr (Fin 10)"
  using round_double_eval [where e = "3" and q = "10000 / 1000"]
  by (simp add: translation_doc_time_def translation_constants int_truediv_def float_eval)

lemma translation_doc_time_10000_2:
  "translation_doc_time 10000 2 = Inr (Fin 5)"
  using round_double_eval [where e = "2" and q = "10000 / 2000"]
  by (simp add: translation_doc_time_def translation_constants int_truediv_def float_eval)

lemma translation_doc_time_10000_3:
  "translation_doc_time 10000 3 = Inr (Fin (7505999378950827 / 2251799813685248))"
  using round_double_eval [where e = "1" and q = "10000 / 3000"]
  by (simp add: translation_doc_time_def translation_constants int_truediv_def float_eval)

lemma llm_chat_estimates_1:
  "llm_chat_estimates 1 =
     Inr (3000, Fin (4440882832559707 / 18446744073709551616), Fin 78,
          Fin (4440882832559707 / 9223372036854775808))"
proof -
  have s0: "(1::int) * 3000 = 3000"
    by simp
  have s1: "float_of_int 3000 = Inr (Fin 3000)"
    by (simp add: float_of_int_numeral)
  have s2: "float_mul (Fin 3000) (Fin 26000000000) = Fin 78000000000000"
    using round_double_eval [where e = "46" and q = "3000 * 26000000000"]
    by (simp add: float_eval)
  have s3:
    "float_truediv (Fin 78000000000000) (Fin 90000000000000) =
       Inr (Fin (1951559838527215 / 2251799813685248))"
    using round_double_eval [where e = "-1" and q = "78000000000000 / 90000000000000"]
    by (simp add: float_truediv_def float_eval)
  have s4:
    "float_truediv (Fin (1951559838527215 / 2251799813685248)) (Fin 3600) =
       Inr (Fin (4440882832559707 / 18446744073709551616))"
    using round_double_eval
      [where e = "-13" and q = "(1951559838527215 / 2251799813685248) / 3600"]
    by (simp add: float_truediv_def float_eval)
  have s5:
    "float_mul (Fin (4440882832559707 / 18446744073709551616)) (Fin 3600) =
       Fin (1951559838527215 / 2251799813685248)"
    using round_double_eval
      [where e = "-1" and q = "(4440882832559707 / 18446744073709551616) * 3600"]
    by (simp add: float_eval)
  have s6: "float_mul (Fin (1951559838527215 / 2251799813685248)) (Fin 90) = Fin 78"
    using round_double_eval [where e = "6" and q = "(1951559838527215 / 2251799813685248) * 90"]
    by (simp add: float_eval)
  have s7:
    "float_mul (Fin (4440882832559707 / 18446744073709551616)) (Fin 2) =
       Fin (4440882832559707 / 9223372036854775808)"
    using round_double_eval
      [where e = "-12" and q = "(4440882832559707 / 18446744073709551616) * 2"]
    by (simp add: float_eval)
  show ?thesis
    by (simp only: llm_chat_estimates_unfold s0 s1 s2 s3 s4 s5 s6 s7 sum.case)
qed

lemma llm_chat_estimates_13:
  "llm_chat_estimates 13 =
     Inr (39000, Fin (1804108650727381 / 576460752303423488),
          Fin (8919238324518913 / 8796093022208), Fin (1804108650727381 / 288230376151711744))"
proof -
  have s0: "(13::int) * 3000 = 39000"
    by simp
  have s1: "float_of_int 39000 = Inr (Fin 39000)"
    by (simp add: float_of_int_numeral)
  have s2: "float_mul (Fin 39000) (Fin 26000000000) = Fin 1014000000000000"
    using round_double_eval [where e = "49" and q = "39000 * 26000000000"]
    by (simp add: float_eval)
  have s3:
    "float_truediv (Fin 1014000000000000) (Fin 90000000000000) =
       Inr (Fin (6342569475213449 / 562949953421312))"
    using round_double_eval [where e = "3" and q = "1014000000000000 / 90000000000000"]
    by (simp add: float_truediv_def float_eval)
  have s4:
    "float_truediv (Fin (6342569475213449 / 562949953421312)) (Fin 3600) =
       Inr (Fin (1804108650727381 / 576460752303423488))"
    using round_double_eval
      [where e = "-9" and q = "(6342569475213449 / 562949953421312) / 3600"]
    by (simp add: float_truediv_def float_eval)
  have s5:
    "float_mul (Fin (1804108650727381 / 576460752303423488)) (Fin 3600) =
       Fin (6342569475213449 / 562949953421312)"
    using round_double_eval
      [where e = "3" and q = "(1804108650727381 / 576460752303423488) * 3600"]
    by (simp add: float_eval)
  have s6:
    "float_mul (Fin (6342569475213449 / 562949953421312)) (Fin 90) =
       Fin (8919238324518913 / 8796093022208)"
    using round_double_eval [where e = "9" and q = "(6342569475213449 / 562949953421312) * 90"]
    by (simp add: float_eval)
  have s7:
    "float_mul (Fin (1804108650727381 / 576460752303423488)) (Fin 2) =
       Fin (1804108650727381 / 288230376151711744)"
    using round_double_eval
      [where e = "-8" and q = "(1804108650727381 / 576460752303423488) * 2"]
    by (simp add: float_eval)
  show ?thesis
    by (simp only: llm_chat_estimates_unfold s0 s1 s2 s3 s4 s5 s6 s7 sum.case)
qed

lemma llm_chat_estimates_100:
  "llm_chat_estimates 100 =
     Inr (300000, Fin (3469439712937271 / 144115188075855872), Fin 7800,
          Fin (3469439712937271 / 72057594037927936))"
proof -
  have s0: "(100::int) * 3000 = 300000"
    by simp
  have s1: "float_of_int 300000 = Inr (Fin 300000)"
    by (simp add: float_of_int_numeral)
  have s2: "float_mul (Fin 300000) (Fin 26000000000) = Fin 7800000000000000"
    using round_double_eval [where e = "52" and q = "300000 * 26000000000"]
    by (simp add: float_eval)
  have s3:
    "float_truediv (Fin 7800000000000000) (Fin 90000000000000) =
       Inr (Fin (6098624495397547 / 70368744177664))"
    using round_double_eval [where e = "6" and q = "7800000000000000 / 90000000000000"]
    by (simp add: float_truediv_def float_eval)
  have s4:
    "float_truediv (Fin (6098624495397547 / 70368744177664)) (Fin 3600) =
       Inr (Fin (3469439712937271 / 144115188075855872))"
    using round_double_eval
      [where e = "-6" and q = "(6098624495397547 / 70368744177664) / 3600"]
    by (simp add: float_truediv_def float_eval)
  have s5:
    "float_mul (Fin (3469439712937271 / 144115188075855872)) (Fin 3600) =
       Fin (6098624495397547 / 70368744177664)"
    using round_double_eval
      [where e = "6" and q = "(3469439712937271 / 144115188075855872) * 3600"]
    by (simp add: float_eval)
  have s6: "float_mul (Fin (6098624495397547 / 70368744177664)) (Fin 90) = Fin 7800"
    using round_double_eval [where e = "12" and q = "(6098624495397547 / 70368744177664) * 90"]
    by (simp add: float_eval)
  have s7:
    "float_mul (Fin (3469439712937271 / 144115188075855872)) (Fin 2) =
       Fin (3469439712937271 / 72057594037927936)"
    using round_double_eval
      [where e = "-5" and q = "(3469439712937271 / 144115188075855872) * 2"]
    by (simp add: float_eval)
  show ?thesis
    by (simp only: llm_chat_estimates_unfold s0 s1 s2 s3 s4 s5 s6 s7 sum.case)
qed

lemma llm_chat_estimates_10000:
  "llm_chat_estimates 10000 =
     Inr (30000000, Fin (2710499775732243 / 1125899906842624), Fin 780000,
          Fin (2710499775732243 / 562949953421312))"
proof -
  have s0: "(10000::int) * 3000 = 30000000"
    by simp
  have s1: "float_of_int 30000000 = Inr (Fin 30000000)"
    by (simp add: float_of_int_numeral)
  have s2: "float_mul (Fin 30000000) (Fin 26000000000) = Fin 780000000000000000"
    using round_double_eval [where e = "59" and q = "30000000 * 26000000000"]
    by (simp add: float_eval)
  have s3:
    "float_truediv (Fin 780000000000000000) (Fin 90000000000000) =
       Inr (Fin (4764550387029333 / 549755813888))"
    using round_double_eval [where e = "13" and q = "780000000000000000 / 90000000000000"]
    by (simp add: float_truediv_def float_eval)
  have s4:
    "float_truediv (Fin (4764550387029333 / 549755813888)) (Fin 3600) =
       Inr (Fin (2710499775732243 / 1125899906842624))"
    using round_double_eval [where e = "1" and q = "(4764550387029333 / 549755813888) / 3600"]
    by (simp add: float_truediv_def float_eval)
  have s5:
    "float_mul (Fin (2710499775732243 / 1125899906842624)) (Fin 3600) =
       Fin (4764550387029333 / 549755813888)"
    using round_double_eval
      [where e = "13" and q = "(2710499775732243 / 1125899906842624) * 3600"]
    by (simp add: float_eval)
  have s6: "float_mul (Fin (4764550387029333 / 549755813888)) (Fin 90) = Fin 780000"
    using round_double_eval [where e = "19" and q = "(4764550387029333 / 549755813888) * 90"]
    by (simp add: float_eval)
  have s7:
    "float_mul (Fin (2710499775732243 / 1125899906842624)) (Fin 2) =
       Fin (2710499775732243 / 562949953421312)"
    using round_double_eval [where e = "2" and q = "(2710499775732243 / 1125899906842624) * 2"]
    by (simp add: float_eval)
  show ?thesis
    by (simp only: llm_chat_estimates_unfold s0 s1 s2 s3 s4 s5 s6 s7 sum.case)
qed

lemma llm_chat_estimates_100000:
  "llm_chat_estimates 100000 =
     Inr (300000000, Fin (423515589958163 / 17592186044416), Fin 7800000,
          Fin (423515589958163 / 8796093022208))"
proof -
  have s0: "(100000::int) * 3000 = 300000000"
    by simp
  have s1: "float_of_int 300000000 = Inr (Fin 300000000)"
    by (simp add: float_of_int_numeral)
  have s2: "float_mul (Fin 300000000) (Fin 26000000000) = Fin 7800000000000000000"
    using round_double_eval [where e = "62" and q = "300000000 * 26000000000"]
    by (simp add: float_eval)
  have s3:
    "float_truediv (Fin 7800000000000000000) (Fin 90000000000000) =
       Inr (Fin (5955687983786667 / 68719476736))"
    using round_double_eval [where e = "16" and q = "7800000000000000000 / 90000000000000"]
    by (simp add: float_truediv_def float_eval)
  have s4:
    "float_truediv (Fin (5955687983786667 / 68719476736)) (Fin 3600) =
       Inr (Fin (423515589958163 / 17592186044416))"
    using round_double_eval [where e = "4" and q = "(5955687983786667 / 68719476736) / 3600"]
    by (simp add: float_truediv_def float_eval)
  have s5:
    "float_mul (Fin (423515589958163 / 17592186044416)) (Fin 3600) =
       Fin (5955687983786667 / 68719476736)"
    using round_double_eval [where e = "16" and q = "(423515589958163 / 17592186044416) * 3600"]
    by (simp add: float_eval)
  have s6: "float_mul (Fin (5955687983786667 / 68719476736)) (Fin 90) = Fin 7800000"
    using round_double_eval [where e = "22" and q = "(5955687983786667 / 68719476736) * 90"]
    by (simp add: float_eval)
  have s7:
    "float_mul (Fin (423515589958163 / 17592186044416)) (Fin 2) =
       Fin (423515589958163 / 8796093022208)"
    using round_double_eval [where e = "5" and q = "(423515589958163 / 17592186044416) * 2"]
    by (simp add: float_eval)
  show ?thesis
    by (simp only: llm_chat_estimates_unfold s0 s1 s2 s3 s4 s5 s6 s7 sum.case)
qed

subsection \<open>Inputs at the edge of the float range\<close>

lemma llm_chat_estimates_2_977:
  "llm_chat_estimates (2 ^ 977) =
     Inr ((3000 * 2 ^ 977), Fin (4440882832559707 * 2 ^ 913), Fin (39 * 2 ^ 978),
          Fin (4440882832559707 * 2 ^ 914))"
proof -
  have s0: "((2 ^ 977)::int) * 3000 = (3000 * 2 ^ 977)"
    by simp
  have s1: "float_of_int (3000 * 2 ^ 977) = Inr (Fin (3000 * 2 ^ 977))"
    using round_double_eval [where e = "988" and q = "(3000 * 2 ^ 977)"]
    by (simp add: float_of_int_def float_eval)
  have s2: "float_mul (Fin (3000 * 2 ^ 977)) (Fin 26000000000) = Fin (9521484375 * 2 ^ 990)"
    using round_double_eval [where e = "1023" and q = "(3000 * 2 ^ 977) * 26000000000"]
    by (simp add: float_eval)
  have s3:
    "float_truediv (Fin (9521484375 * 2 ^ 990)) (Fin 90000000000000) =
       Inr (Fin (1951559838527215 * 2 ^ 926))"
    using round_double_eval [where e = "976" and q = "(9521484375 * 2 ^ 990) / 90000000000000"]
    by (simp add: float_truediv_def float_eval)
  have s4:
    "float_truediv (Fin (1951559838527215 * 2 ^ 926)) (Fin 3600) =
       Inr (Fin (4440882832559707 * 2 ^ 913))"
    using round_double_eval [where e = "964" and q = "(1951559838527215 * 2 ^ 926) / 3600"]
    by (simp add: float_truediv_def float_eval)
  have s5:
    "float_mul (Fin (4440882832559707 * 2 ^ 913)) (Fin 3600) =
       Fin (1951559838527215 * 2 ^ 926)"
    using round_double_eval [where e = "976" and q = "(4440882832559707 * 2 ^ 913) * 3600"]
    by (simp add: float_eval)
  have s6: "float_mul (Fin (1951559838527215 * 2 ^ 926)) (Fin 90) = Fin (39 * 2 ^ 978)"
    using round_double_eval [where e = "983" and q = "(1951559838527215 * 2 ^ 926) * 90"]
    by (simp add: float_eval)
  have s7:
    "float_mul (Fin (4440882832559707 * 2 ^ 913)) (Fin 2) =
       Fin (4440882832559707 * 2 ^ 914)"
    using round_double_eval [where e = "965" and q = "(4440882832559707 * 2 ^ 913) * 2"]
    by (simp add: float_eval)
  show ?thesis
    by (simp only: llm_chat_estimates_unfold s0 s1 s2 s3 s4 s5 s6 s7 sum.case)
qed

lemma llm_chat_estimates_2_978:
  "llm_chat_estimates (2 ^ 978) = Inr ((3000 * 2 ^ 978), PInf, PInf, PInf)"
proof -
  have s0: "((2 ^ 978)::int) * 3000 = (3000 * 2 ^ 978)"
    by simp
  have s1: "float_of_int (3000 * 2 ^ 978) = Inr (Fin (3000 * 2 ^ 978))"
    using round_double_eval [where e = "989" and q = "(3000 * 2 ^ 978)"]
    by (simp add: float_of_int_def float_eval)
  have s2: "float_mul (Fin (3000 * 2 ^ 978)) (Fin 26000000000) = PInf"
    using round_double_eval [where e = "1024" and q = "(3000 * 2 ^ 978) * 26000000000"]
    by (simp add: float_eval)
  have s3: "float_truediv PInf (Fin 90000000000000) = Inr PInf"
    by (simp add: float_truediv_def)
  have s4: "float_truediv PInf (Fin 3600) = Inr PInf"
    by (simp add: float_truediv_def)
  have s5: "float_mul PInf (Fin 3600) = PInf"
    by simp
  have s6: "float_mul PInf (Fin 90) = PInf"
    by simp
  have s7: "float_mul PInf (Fin 2) = PInf"
    by simp
  show ?thesis
    by (simp only: llm_chat_estimates_unfold s0 s1 s2 s3 s4 s5 s6 s7 sum.case)
qed

section \<open>The text of the reports\<close>

subsection \<open>Formatted fields\<close>

lemma str_int_1000:
  "str_int 1000 = ''1000''"
  by (simp add: str_int_def digits.simps)

lemma str_int_60000:
  "str_int 60000 = ''60000''"
  by (simp add: str_int_def digits.simps)

lemma str_int_90:
  "str_int 90 = ''90''"
  by (simp add: str_int_def digits.simps)

lemma str_int_1:
  "str_int 1 = ''1''"
  by (simp add: str_int_def digits.simps)

lemma str_int_2:
  "str_int 2 = ''2''"
  by (simp add: str_int_def digits.simps)

lemma str_int_13:
  "str_int 13 = ''13''"
  by (simp add: str_int_def digits.simps)

lemma str_int_3000:
  "str_int 3000 = ''3000''"
  by (simp add: str_int_def digits.simps)

lemma format_int_grouped_0_10000:
  "format_int_grouped 0 10000 = ''10,000''"
  by (simp add: format_int_grouped_def pad_left_def group_thousands_def digits.simps
      eval_nat_numeral)

lemma format_minutes_1:
  "format_f 0 2 (Fin 10) = ''10.00''"
  by (simp add: format_f_def pad_left_def round_half_even_numeral_divide
      round_half_even_numeral digits.simps Let_def eval_nat_numeral)

lemma format_minutes_2:
  "format_f 0 2 (Fin 5) = ''5.00''"
  by (simp add: format_f_def pad_left_def round_half_even_numeral_divide
      round_half_even_numeral digits.simps Let_def eval_nat_numeral)

lemma format_int_grouped_9_10000:
  "format_int_grouped 9 10000 = ''   10,000''"
  by (simp add: format_int_grouped_def pad_left_def group_thousands_def digits.simps
      eval_nat_numeral)

lemma format_translation_hours_10000:
  "format_f 13 2 (Fin (6004799503160661 / 36028797018963968)) = ''         0.17''"
  by (simp add: format_f_def pad_left_def round_half_even_numeral_divide
      round_half_even_numeral digits.simps Let_def eval_nat_numeral)

lemma format_translation_total_10000:
  "format_f 21 0 (Fin 54000) = ''                54000''"
  by (simp add: format_f_def pad_left_def round_half_even_numeral_divide
      round_half_even_numeral digits.simps Let_def eval_nat_numeral)

lemma format_translation_cost_10000:
  "format_f 10 2 (Fin (6004799503160661 / 18014398509481984)) = ''      0.33''"
  by (simp add: format_f_def pad_left_def round_half_even_numeral_divide
      round_half_even_numeral digits.simps Let_def eval_nat_numeral)

lemma format_int_grouped_9_100000:
  "format_int_grouped 9 100000 = ''  100,000''"
  by (simp add: format_int_grouped_def pad_left_def group_thousands_def digits.simps
      eval_nat_numeral)

lemma format_translation_hours_100000:
  "format_f 13 2 (Fin (7505999378950827 / 4503599627370496)) = ''         1.67''"
  by (simp add: format_f_def pad_left_def round_half_even_numeral_divide
      round_half_even_numeral digits.simps Let_def eval_nat_numeral)

lemma format_translation_total_100000:
  "format_f 21 0 (Fin 540000) = ''               540000''"
  by (simp add: format_f_def pad_left_def round_half_even_numeral_divide
      round_half_even_numeral digits.simps Let_def eval_nat_numeral)

lemma format_translation_cost_100000:
  "format_f 10 2 (Fin (7505999378950827 / 2251799813685248)) = ''      3.33''"
  by (simp add: format_f_def pad_left_def round_half_even_numeral_divide
      round_half_even_numeral digits.simps Let_def eval_nat_numeral)

lemma format_int_grouped_9_1000000:
  "format_int_grouped 9 1000000 = ''1,000,000''"
  by (simp add: format_int_grouped_def pad_left_def group_thousands_def digits.simps
      eval_nat_numeral)

lemma format_translation_hours_1000000:
  "format_f 13 2 (Fin (4691249611844267 / 281474976710656)) = ''        16.67''"
  by (simp add: format_f_def pad_left_def round_half_even_numeral_divide
      round_half_even_numeral digits.simps Let_def eval_nat_numeral)

lemma format_translation_total_1000000:
  "format_f 21 0 (Fin (5798205849600001 / 1073741824)) = ''              5400000''"
  by (simp add: format_f_def pad_left_def round_half_even_numeral_divide
      round_half_even_numeral digits.simps Let_def eval_nat_numeral)

lemma format_translation_cost_1000000:
  "format_f 10 2 (Fin (4691249611844267 / 140737488355328)) = ''     33.33''"
  by (simp add: format_f_def pad_left_def round_half_even_numeral_divide
      round_half_even_numeral digits.simps Let_def eval_nat_numeral)

lemma format_gflops_per_token:
  "format_f 0 0 (Fin 26) = ''26''"
  by (simp add: format_f_def pad_left_def round_half_even_numeral_divide
      round_half_even_numeral digits.simps Let_def eval_nat_numeral)

lemma format_int_grouped_9_100:
  "format_int_grouped 9 100 = ''      100''"
  by (simp add: format_int_grouped_def pad_left_def group_thousands_def digits.simps
      eval_nat_numeral)

lemma format_int_grouped_13_300000:
  "format_int_grouped 13 300000 = ''      300,000''"
  by (simp add: format_int_grouped_def pad_left_def group_thousands_def digits.simps
      eval_nat_numeral)

lemma format_chat_hours_100:
  "format_f 13 2 (Fin (3469439712937271 / 144115188075855872)) = ''         0.02''"
  by (simp add: format_f_def pad_left_def round_half_even_numeral_divide
      round_half_even_numeral digits.simps Let_def eval_nat_numeral)

lemma format_chat_total_100:
  "format_f 21 0 (Fin 7800) = ''                 7800''"
  by (simp add: format_f_def pad_left_def round_half_even_numeral_divide
      round_half_even_numeral digits.simps Let_def eval_nat_numeral)

lemma format_chat_cost_100:
  "format_f 10 2 (Fin (3469439712937271 / 72057594037927936)) = ''      0.05''"
  by (simp add: format_f_def pad_left_def round_half_even_numeral_divide
      round_half_even_numeral digits.simps Let_def eval_nat_numeral)

lemma format_int_grouped_13_30000000:
  "format_int_grouped 13 30000000 = ''   30,000,000''"
  by (simp add: format_int_grouped_def pad_left_def group_thousands_def digits.simps
      eval_nat_numeral)

lemma format_chat_hours_10000:
  "format_f 13 2 (Fin (2710499775732243 / 1125899906842624)) = ''         2.41''"
  by (simp add: format_f_def pad_left_def round_half_even_numeral_divide
      round_half_even_numeral digits.simps Let_def eval_nat_numeral)

lemma format_chat_total_10000:
  "format_f 21 0 (Fin 780000) = ''               780000''"
  by (simp add: format_f_def pad_left_def round_half_even_numeral_divide
      round_half_even_numeral digits.simps Let_def eval_nat_numeral)

lemma format_chat_cost_10000:
  "format_f 10 2 (Fin (2710499775732243 / 562949953421312)) = ''      4.81''"
  by (simp add: format_f_def pad_left_def round_half_even_numeral_divide
      round_half_even_numeral digits.simps Let_def eval_nat_numeral)

lemma format_int_grouped_13_300000000:
  "format_int_grouped 13 300000000 = ''  300,000,000''"
  by (simp add: format_int_grouped_def pad_left_def group_thousands_def digits.simps
      eval_nat_numeral)

lemma format_chat_hours_100000:
  "format_f 13 2 (Fin (423515589958163 / 17592186044416)) = ''        24.07''"
  by (simp add: format_f_def pad_left_def round_half_even_numeral_divide
      round_half_even_numeral digits.simps Let_def eval_nat_numeral)

lemma format_chat_total_100000:
  "format_f 21 0 (Fin 7800000) = ''              7800000''"
  by (simp add: format_f_def pad_left_def round_half_even_numeral_divide
      round_half_even_numeral digits.simps Let_def eval_nat_numeral)

lemma format_chat_cost_100000:
  "format_f 10 2 (Fin (423515589958163 / 8796093022208)) = ''     48.15''"
  by (simp add: format_f_def pad_left_def round_half_even_numeral_divide
      round_half_even_numeral digits.simps Let_def eval_nat_numeral)

lemma rule_of_80_equals:
  "replicate 80 CHR ''='' =
     ''================================================================================''"
  by (simp add: eval_nat_numeral)

lemma rule_of_80_dashes:
  "replicate 80 CHR ''-'' =
     ''--------------------------------------------------------------------------------''"
  by (simp add: eval_nat_numeral)

lemma rule_of_90_dashes:
  "replicate 90 CHR ''-'' =
     ''------------------------------------------------------------------------------------------''"
  by (simp add: eval_nat_numeral)

lemma str_float_hourly_cost:
  "str_float GPU_HOURLY_COST = ''2.0''"
  by (simp add: str_float_def GPU_HOURLY_COST_def digits.simps)

lemma gflops_per_token:
  "float_truediv (Fin 26000000000) (Fin 1000000000) = Inr (Fin 26)"
  by (simp add: float_truediv_def float_result_def float_overflow_def round_double_numeral)

lemmas report_fields =
  translation_constants LLM_PARAMS_BILLIONS_def TOKENS_PER_USER_PER_DAY_def
  rule_of_80_equals rule_of_80_dashes rule_of_90_dashes str_float_hourly_cost
  str_int_1000 str_int_60000 str_int_90 str_int_1 str_int_2 str_int_13 str_int_3000
  format_int_grouped_0_10000 format_minutes_1 format_minutes_2 format_int_grouped_9_10000
  format_translation_hours_10000 format_translation_total_10000
  format_translation_cost_10000 format_int_grouped_9_100000 format_translation_hours_100000
  format_translation_total_100000 format_translation_cost_100000
  format_int_grouped_9_1000000 format_translation_hours_1000000
  format_translation_total_1000000 format_translation_cost_1000000 format_gflops_per_token
  format_int_grouped_9_100 format_int_grouped_13_300000 format_chat_hours_100
  format_chat_total_100 format_chat_cost_100 format_int_grouped_13_30000000
  format_chat_hours_10000 format_chat_total_10000 format_chat_cost_10000
  format_int_grouped_13_300000000 format_chat_hours_100000 format_chat_total_100000
  format_chat_cost_100000

lemmas report_values =
  translation_doc_time_10000_1 translation_doc_time_10000_2
  translation_estimates_10000 translation_estimates_100000 translation_estimates_1000000
  llm_chat_estimates_100 llm_chat_estimates_10000 llm_chat_estimates_100000
  FLOPS_PER_TOKEN_value gflops_per_token

subsection \<open>The full text\<close>

text \<open>Each report appends its text to whatever has been printed before.\<close>

lemma print_translation_summary_text:
  "print_translation_summary out =
     Inr (out @
       unlines
         [''================================================================================'',
          ''USE CASE 1: MACHINE TRANSLATION - CAPACITY & COST ESTIMATES'',
          ''Assumptions:'',
          ''  - 1 GPU can translate 1000 words/minute (60000 words/hour)'',
          ''  - GPU peak performance: 90 TFLOPs/s'',
          ''  - GPU hourly cost: $2.0/hour'',
          '''',
          ''Time to translate a 10,000-word document on 1 GPU(s): 10.00 minutes'',
          ''Time to translate a 10,000-word document on 2 GPU(s): 5.00 minutes'',
          '''',
          ''Daily translation load scenarios:'',
          ''Words/day | GPU-hours/day | Total TFLOPs used/day | Cost/day (USD)'',
          ''--------------------------------------------------------------------------------'',
          ''   10,000 |          0.17 |                 54000 | $      0.33'',
          ''  100,000 |          1.67 |                540000 | $      3.33'',
          ''1,000,000 |         16.67 |               5400000 | $     33.33'',
          ''''])"
  by (simp add: print_translation_summary_def py_print_def unlines_def report_values
      report_fields)

lemma print_llm_chat_summary_text:
  "print_llm_chat_summary out =
     Inr (out @
       unlines
         ([''================================================================================'',
           ''USE CASE 2: LLM CHAT - CAPACITY & COST ESTIMATES'',
           ''Assumptions:'',
           ''  - Model size: ~13B parameters'',
           ''  - FLOPs per token '' @ [CHR 0xE2, CHR 0x89, CHR 0x88] @ '' 2 '' @ [CHR 0xC3, CHR 0x97] @ '' params '' @
             [CHR 0xE2, CHR 0x89, CHR 0x88] @ '' 26 GFLOPs/token''] @
          [''  - Avg tokens per user/day: 3000 tokens'',
           ''  - GPU peak performance: 90 TFLOPs/s'',
           ''  - GPU hourly cost: $2.0/hour'',
           '''',
           ''Daily user load scenarios:'',
           ''Users/day | Tokens/day     | GPU-hours/day | Total TFLOPs used/day | Cost/day (USD)'',
           ''------------------------------------------------------------------------------------------'',
           ''      100 |       300,000 |          0.02 |                  7800 | $      0.05'',
           ''   10,000 |    30,000,000 |          2.41 |                780000 | $      4.81'',
           ''  100,000 |   300,000,000 |         24.07 |               7800000 | $     48.15'',
           '''']))"
  by (simp add: print_llm_chat_summary_def py_print_def unlines_def report_values
      report_fields)

subsection \<open>The lines that report a call\<close>

lemmas read_back =
  shows_doc_time_def shows_translation_estimates_def shows_llm_chat_estimates_def
  line_shows_def numeric_fields_def field_shows_def read_decimal_def read_digits_def

lemma report_line_1:
  "shows_doc_time
     ''Time to translate a 10,000-word document on 1 GPU(s): 10.00 minutes''
     10000 1"
  by (simp add: read_back report_values)

lemma report_line_2:
  "shows_doc_time
     ''Time to translate a 10,000-word document on 2 GPU(s): 5.00 minutes''
     10000 2"
  by (simp add: read_back report_values)

lemma report_line_3:
  "shows_translation_estimates
     ''   10,000 |          0.17 |                 54000 | $      0.33''
     10000"
  by (simp add: read_back report_values)

lemma report_line_4:
  "shows_translation_estimates
     ''  100,000 |          1.67 |                540000 | $      3.33''
     100000"
  by (simp add: read_back report_values)

lemma report_line_5:
  "shows_translation_estimates
     ''1,000,000 |         16.67 |               5400000 | $     33.33''
     1000000"
  by (simp add: read_back report_values)

lemma report_line_6:
  "shows_llm_chat_estimates
     ''      100 |       300,000 |          0.02 |                  7800 | $      0.05''
     100"
  by (simp add: read_back report_values)

lemma report_line_7:
  "shows_llm_chat_estimates
     ''   10,000 |    30,000,000 |          2.41 |                780000 | $      4.81''
     10000"
  by (simp add: read_back report_values)

lemma report_line_8:
  "shows_llm_chat_estimates
     ''  100,000 |   300,000,000 |         24.07 |               7800000 | $     48.15''
     100000"
  by (simp add: read_back report_values)

section \<open>Fixed values of the estimators\<close>

text \<open>
  Claim C5. \<open>translation_estimates(60000)\<close> returns exactly resource-hours \<open>1.0\<close>,
  total operations \<open>324000\<close> (that is \<open>3600 * 90\<close>) and cost \<open>2.0\<close>: no operation
  on the way rounds.
\<close>

theorem translation_estimates_one_hour:
  "translation_estimates 60000 = Inr (Fin 1, Fin 324000, Fin 2) \<and> (324000 :: rat) = 3600 * 90"
  by (simp add: translation_estimates_def int_truediv_def float_mul_int_def float_of_int_def
      float_result_def float_overflow_def translation_constants GPU_HOURLY_COST_def round_double_numeral
      round_double_one Let_def)

section \<open>How cost and total operations are derived\<close>

text \<open>
  Claim C1. In both estimators the returned cost is the returned resource-hours multiplied
  by the hourly cost constant \<open>2.0\<close>, and by nothing else. The float product is exact:
  whenever hours and cost are finite, the cost is twice the hours as a rational number.
\<close>

theorem cost_is_hours_times_hourly_cost:
  "(translation_estimates w = Inr (gh, tf, c) \<longrightarrow>
      c = float_mul gh GPU_HOURLY_COST \<and> (\<forall>h k. gh = Fin h \<and> c = Fin k \<longrightarrow> k = h * 2)) \<and>
   (llm_chat_estimates n = Inr (tok, gh', tf', c') \<longrightarrow>
      c' = float_mul gh' GPU_HOURLY_COST \<and> (\<forall>h k. gh' = Fin h \<and> c' = Fin k \<longrightarrow> k = h * 2))"
proof (intro conjI impI allI)
  assume a: "translation_estimates w = Inr (gh, tf, c)"
  show "c = float_mul gh GPU_HOURLY_COST"
    using translation_estimates_Inr(3) [OF a] by (simp add: GPU_HOURLY_COST_def)
  fix h k
  assume hk: "gh = Fin h \<and> c = Fin k"
  have "h = round_double (of_int w / 60000)"
    using translation_estimates_Inr(1) [OF a] hk by simp
  moreover have "float_mul (Fin h) (Fin 2) = Fin k"
    using translation_estimates_Inr(3) [OF a] hk by simp
  ultimately show "k = h * 2"
    by (simp only: float_mul_two)
next
  assume a: "llm_chat_estimates n = Inr (tok, gh', tf', c')"
  show "c' = float_mul gh' GPU_HOURLY_COST"
    using llm_chat_estimates_Inr(4) [OF a] by (simp add: GPU_HOURLY_COST_def)
  fix h k
  assume hk: "gh' = Fin h \<and> c' = Fin k"
  obtain gs where "float_truediv gs (Fin 3600) = Inr (Fin h)"
    using llm_chat_estimates_Inr(2) [OF a] hk by auto
  then obtain s where "h = round_double (s / 3600)"
    using float_truediv_Fin by blast
  moreover have "float_mul (Fin h) (Fin 2) = Fin k"
    using llm_chat_estimates_Inr(4) [OF a] hk by simp
  ultimately show "k = h * 2"
    by (simp only: float_mul_two)
qed

theorem cost_is_hours_times_hourly_cost_witness:
  "translation_estimates 10000 =
     Inr (Fin (6004799503160661 / 36028797018963968), Fin 54000,
          Fin (6004799503160661 / 18014398509481984)) \<and>
   Fin (6004799503160661 / 18014398509481984) =
     float_mul (Fin (6004799503160661 / 36028797018963968)) GPU_HOURLY_COST \<and>
   (6004799503160661 / 18014398509481984 :: rat) = 6004799503160661 / 36028797018963968 * 2 \<and>
   llm_chat_estimates 100 =
     Inr (300000, Fin (3469439712937271 / 144115188075855872), Fin 7800,
          Fin (3469439712937271 / 72057594037927936)) \<and>
   Fin (3469439712937271 / 72057594037927936) =
     float_mul (Fin (3469439712937271 / 144115188075855872)) GPU_HOURLY_COST \<and>
   (3469439712937271 / 72057594037927936 :: rat) = 3469439712937271 / 144115188075855872 * 2"
  using cost_is_hours_times_hourly_cost [of 10000
      "Fin (6004799503160661 / 36028797018963968)" "Fin 54000"
      "Fin (6004799503160661 / 18014398509481984)" 100 300000
      "Fin (3469439712937271 / 144115188075855872)" "Fin 7800"
      "Fin (3469439712937271 / 72057594037927936)"]
    translation_estimates_10000 llm_chat_estimates_100
  by simp

text \<open>
  Claim C2. In both estimators the returned total of operations is the returned
  resource-hours multiplied by \<open>3600\<close> and then by the peak throughput \<open>90\<close>, in floats and
  in this order; the chat estimator recomputes it from the resource-hours as well.
\<close>

theorem total_is_hours_times_3600_times_peak:
  "(translation_estimates w = Inr (gh, tf, c) \<longrightarrow>
      tf = float_mul (float_mul gh (Fin 3600)) (Fin (of_int GPU_TFLOPS))) \<and>
   (llm_chat_estimates n = Inr (tok, gh', tf', c') \<longrightarrow>
      tf' = float_mul (float_mul gh' (Fin 3600)) (Fin (of_int GPU_TFLOPS)))"
  using translation_estimates_Inr(2) [of w gh tf c] llm_chat_estimates_Inr(3) [of n tok gh' tf' c']
  by (simp add: GPU_TFLOPS_def)

theorem total_is_hours_times_3600_times_peak_witness:
  "translation_estimates 1000000 =
     Inr (Fin (4691249611844267 / 281474976710656), Fin (5798205849600001 / 1073741824),
          Fin (4691249611844267 / 140737488355328)) \<and>
   Fin (5798205849600001 / 1073741824) =
     float_mul (float_mul (Fin (4691249611844267 / 281474976710656)) (Fin 3600))
       (Fin (of_int GPU_TFLOPS)) \<and>
   llm_chat_estimates 100 =
     Inr (300000, Fin (3469439712937271 / 144115188075855872), Fin 7800,
          Fin (3469439712937271 / 72057594037927936)) \<and>
   Fin 7800 =
     float_mul (float_mul (Fin (3469439712937271 / 144115188075855872)) (Fin 3600))
       (Fin (of_int GPU_TFLOPS))"
  using total_is_hours_times_3600_times_peak [of 1000000
      "Fin (4691249611844267 / 281474976710656)" "Fin (5798205849600001 / 1073741824)"
      "Fin (4691249611844267 / 140737488355328)" 100 300000
      "Fin (3469439712937271 / 144115188075855872)" "Fin 7800"
      "Fin (3469439712937271 / 72057594037927936)"]
    translation_estimates_1000000 llm_chat_estimates_100
  by simp

section \<open>Errors\<close>

text \<open>
  Claim C10. With \<open>num_gpus = 0\<close> the divisor \<open>WORDS_PER_MIN_TRANSLATION * num_gpus\<close> is
  zero, and \<open>translation_doc_time\<close> raises ZeroDivisionError instead of returning, for
  every word count.
\<close>

theorem translation_doc_time_zero_gpus:
  "translation_doc_time words 0 = Inl ZeroDivisionError"
  by (simp add: translation_doc_time_def int_truediv_def)

section \<open>Where the estimators leave the float range\<close>

text \<open>
  Counterexample to claim C8 as stated (\<open>translation_estimates\<close> never raises): the word
  count is an unbounded integer, and the true division raises OverflowError once the
  quotient rounds out of the float range.
\<close>

theorem translation_estimates_overflow_counterexample:
  "translation_estimates (60000 * 2 ^ 1024) = Inl OverflowError"
  by (simp add: translation_estimates_raises_iff)

text \<open>
  Claim C8, as amended. \<open>translation_estimates\<close> never raises ZeroDivisionError: the
  divisor is the constant \<open>60000\<close>. It raises OverflowError exactly for the word counts
  of magnitude \<open>60000 * (2 ^ 1024 - 2 ^ 970)\<close> or more, and returns a tuple for every
  other word count.
\<close>

theorem translation_estimates_raises_only_overflow:
  "translation_estimates w \<noteq> Inl ZeroDivisionError \<and>
   (translation_estimates w = Inl OverflowError \<longleftrightarrow> 60000 * (2 ^ 1024 - 2 ^ 970) \<le> \<bar>w\<bar>) \<and>
   ((\<exists>r. translation_estimates w = Inr r) \<longleftrightarrow> \<bar>w\<bar> < 60000 * (2 ^ 1024 - 2 ^ 970))"
proof (intro conjI)
  show "translation_estimates w \<noteq> Inl ZeroDivisionError"
    by (simp add: translation_estimates_raises_iff)
  show "translation_estimates w = Inl OverflowError \<longleftrightarrow> 60000 * (2 ^ 1024 - 2 ^ 970) \<le> \<bar>w\<bar>"
    by (simp only: translation_estimates_raises_iff simp_thms)
  show "(\<exists>r. translation_estimates w = Inr r) \<longleftrightarrow> \<bar>w\<bar> < 60000 * (2 ^ 1024 - 2 ^ 970)"
  proof (cases "translation_estimates w")
    case (Inl e)
    then have "60000 * (2 ^ 1024 - 2 ^ 970) \<le> \<bar>w\<bar>"
      by (simp only: translation_estimates_raises_iff)
    then have "\<not> \<bar>w\<bar> < 60000 * (2 ^ 1024 - 2 ^ 970)" by (simp only: not_less)
    moreover have "\<not> (\<exists>r. translation_estimates w = Inr r)" using Inl by simp
    ultimately show ?thesis by blast
  next
    case (Inr r)
    then have "translation_estimates w \<noteq> Inl OverflowError" by simp
    then have "\<not> 60000 * (2 ^ 1024 - 2 ^ 970) \<le> \<bar>w\<bar>"
      by (simp only: translation_estimates_raises_iff simp_thms)
    then have "\<bar>w\<bar> < 60000 * (2 ^ 1024 - 2 ^ 970)" by (simp only: not_le)
    with Inr show ?thesis by blast
  qed
qed

section \<open>Scaling laws\<close>

text \<open>
  Counterexample to claim C4 as stated (the halving law for every word count and every
  positive resource count): where the quotient is subnormal the law fails. With
  \<open>5 * 2 ^ 1074\<close> resources a document of 13000 words takes three units of the smallest
  float, with twice the resources one unit.
\<close>

theorem translation_doc_time_halving_counterexample:
  "translation_doc_time 13000 (5 * 2 ^ 1074) = Inr (Fin (3 / 2 ^ 1074)) \<and>
   translation_doc_time 13000 (2 * (5 * 2 ^ 1074)) = Inr (Fin (1 / 2 ^ 1074)) \<and>
   (1 / 2 ^ 1074 :: rat) \<noteq> 3 / 2 ^ 1074 / 2"
proof (intro conjI)
  show "translation_doc_time 13000 (5 * 2 ^ 1074) = Inr (Fin (3 / 2 ^ 1074))"
    using round_double_eval [where e = "- 1073" and q = "13000 / (1000 * (5 * 2 ^ 1074))"]
    by (simp add: translation_doc_time_def translation_constants int_truediv_def
        float_overflow_def round_half_even_numeral_divide)
  show "translation_doc_time 13000 (2 * (5 * 2 ^ 1074)) = Inr (Fin (1 / 2 ^ 1074))"
    using round_double_eval [where e = "- 1074" and q = "13000 / (1000 * (2 * (5 * 2 ^ 1074)))"]
    by (simp add: translation_doc_time_def translation_constants int_truediv_def
        float_overflow_def round_half_even_numeral_divide)
  show "(1 / 2 ^ 1074 :: rat) \<noteq> 3 / 2 ^ 1074 / 2"
    by simp
qed

text \<open>
  Claim C4, as amended. \<open>translation_doc_time(10000, 1)\<close> returns \<open>10.0\<close> and
  \<open>translation_doc_time(10000, 2)\<close> returns \<open>5.0\<close>. For every positive resource count
  \<open>g\<close> and every word count \<open>w\<close> that is zero or has \<open>\<bar>w\<bar> / (1000 * g) \<ge> 2 powi - 1021\<close>
  (the quotient and its half are normal floats), whenever the call with \<open>g\<close> resources
  returns, the call with \<open>2 * g\<close> resources returns exactly half its minutes.
\<close>

theorem translation_doc_time_halving:
  "translation_doc_time 10000 1 = Inr (Fin 10) \<and>
   translation_doc_time 10000 2 = Inr (Fin 5) \<and>
   (0 < g \<and> (w = 0 \<or> 1000 * g \<le> \<bar>w\<bar> * 2 ^ 1021) \<and>
      translation_doc_time w g = Inr (Fin m) \<longrightarrow>
    translation_doc_time w (2 * g) = Inr (Fin (m / 2)))"
proof (intro conjI impI)
  show "translation_doc_time 10000 1 = Inr (Fin 10)"
    by (rule translation_doc_time_10000_1)
  show "translation_doc_time 10000 2 = Inr (Fin 5)"
    by (rule translation_doc_time_10000_2)
  assume a: "0 < g \<and> (w = 0 \<or> 1000 * g \<le> \<bar>w\<bar> * 2 ^ 1021) \<and>
    translation_doc_time w g = Inr (Fin m)"
  then have "0 < 1000 * g" by simp
  moreover have "w = 0 \<or> 1000 * g \<le> \<bar>w\<bar> * 2 ^ 1021" using a by blast
  moreover have "int_truediv w (1000 * g) = Inr (Fin m)"
    using a by (simp only: translation_doc_time_def translation_constants Let_def)
  ultimately have "int_truediv w (2 * (1000 * g)) = Inr (Fin (m / 2))"
    by (rule int_truediv_half)
  moreover have "1000 * (2 * g) = 2 * (1000 * g)" by simp
  ultimately show "translation_doc_time w (2 * g) = Inr (Fin (m / 2))"
    by (simp only: translation_doc_time_def translation_constants Let_def)
qed

theorem translation_doc_time_halving_witness:
  "(0::int) < 3 \<and> (1000 * 3 \<le> \<bar>10000 :: int\<bar> * 2 ^ 1021) \<and>
   translation_doc_time 10000 3 = Inr (Fin (7505999378950827 / 2251799813685248)) \<and>
   translation_doc_time 10000 (2 * 3) = Inr (Fin (7505999378950827 / 2251799813685248 / 2))"
  using translation_doc_time_halving [of 3 10000 "7505999378950827 / 2251799813685248"]
    translation_doc_time_10000_3
  by simp

text \<open>
  Counterexample to claim C3 as stated (the doubling law for every \<open>N > 0\<close>): where the
  doubled operation count overflows the law fails. For \<open>2 ^ 977\<close> users every result is
  finite, for twice as many the resource-hours, the total and the cost are infinite.
\<close>

theorem llm_chat_estimates_doubling_counterexample:
  "llm_chat_estimates (2 ^ 977) =
     Inr (3000 * 2 ^ 977, Fin (4440882832559707 * 2 ^ 913), Fin (78 * 2 ^ 977),
          Fin (4440882832559707 * 2 ^ 914)) \<and>
   llm_chat_estimates (2 * 2 ^ 977) = Inr (2 * (3000 * 2 ^ 977), PInf, PInf, PInf) \<and>
   PInf \<noteq> Fin (2 * (4440882832559707 * 2 ^ 913))"
  using llm_chat_estimates_2_977 llm_chat_estimates_2_978
  by simp

text \<open>
  Claim C3, as amended. \<open>llm_chat_estimates(1)\<close> returns 3000 tokens. For every \<open>N > 0\<close>
  for which \<open>llm_chat_estimates(2 * N)\<close> returns finite resource-hours and a finite cost,
  \<open>llm_chat_estimates(N)\<close> returns too, and the tokens, the resource-hours and the cost
  for \<open>2 * N\<close> users are exactly twice those for \<open>N\<close> users.
\<close>

theorem llm_chat_estimates_doubling:
  "llm_chat_estimates 1 =
     Inr (3000, Fin (4440882832559707 / 18446744073709551616), Fin 78,
          Fin (4440882832559707 / 9223372036854775808)) \<and>
   (0 < N \<and> llm_chat_estimates (2 * N) = Inr (tok2, Fin h2, tf2, Fin c2) \<longrightarrow>
      (\<exists>tok h tf c. llm_chat_estimates N = Inr (tok, Fin h, tf, Fin c) \<and>
         tok2 = 2 * tok \<and> h2 = 2 * h \<and> c2 = 2 * c))"
proof (intro conjI impI)
  show "llm_chat_estimates 1 =
     Inr (3000, Fin (4440882832559707 / 18446744073709551616), Fin 78,
          Fin (4440882832559707 / 9223372036854775808))"
    by (rule llm_chat_estimates_1)
  assume a: "0 < N \<and> llm_chat_estimates (2 * N) = Inr (tok2, Fin h2, tf2, Fin c2)"
  then have N: "N \<noteq> 0" and r: "llm_chat_estimates (2 * N) = Inr (tok2, Fin h2, tf2, Fin c2)"
    by simp_all
  obtain tf where "llm_chat_estimates N = Inr (N * 3000, Fin (h2 / 2), tf, Fin (c2 / 2))"
    using llm_chat_estimates_half(1) [OF N r] by blast
  moreover have "tok2 = 2 * (N * 3000)"
    using N r by (rule llm_chat_estimates_half(2))
  moreover have "h2 = 2 * (h2 / 2)" "c2 = 2 * (c2 / 2)" by simp_all
  ultimately show "\<exists>tok h tf c. llm_chat_estimates N = Inr (tok, Fin h, tf, Fin c) \<and>
      tok2 = 2 * tok \<and> h2 = 2 * h \<and> c2 = 2 * c"
    by blast
qed

theorem llm_chat_estimates_doubling_witness:
  "(0::int) < 50 \<and>
   llm_chat_estimates (2 * 50) =
     Inr (300000, Fin (3469439712937271 / 144115188075855872), Fin 7800,
          Fin (3469439712937271 / 72057594037927936)) \<and>
   (\<exists>tok h tf c. llm_chat_estimates 50 = Inr (tok, Fin h, tf, Fin c) \<and>
      300000 = 2 * tok \<and> 3469439712937271 / 144115188075855872 = 2 * h \<and>
      3469439712937271 / 72057594037927936 = 2 * c)"
  using llm_chat_estimates_doubling [of 50 300000 "3469439712937271 / 144115188075855872"
      "Fin 7800" "3469439712937271 / 72057594037927936"]
    llm_chat_estimates_100
  by simp

section \<open>The two derivations of the total\<close>

text \<open>
  Claim C6. The two derivations of the total in \<open>llm_chat_estimates\<close> are mathematically
  equivalent for every user count: in exact arithmetic, the no-rounding limit, the round
  trip (operations, resource-seconds, resource-hours, resource-hours times \<open>3600\<close> times
  the peak rate) gives the directly computed count \<open>tokens * operations-per-token / 1e12\<close>.
  The rounding that the round trip reintroduces in floats is bounded: the total that
  \<open>llm_chat_estimates\<close> returns, when finite, differs from the direct count by a relative
  error of at most \<open>2 powi - 49\<close>, the rounding of six float operations.
\<close>

theorem llm_chat_total_round_trip:
  "fst (snd (snd (llm_chat_estimates_exact n))) = direct_tflops n \<and>
   (llm_chat_estimates n = Inr (tok, gh, Fin tf, c) \<longrightarrow>
      \<bar>tf - direct_tflops n\<bar> \<le> \<bar>direct_tflops n\<bar> / 2 ^ 49)"
  using llm_chat_estimates_exact_total [of n] llm_chat_estimates_total_error [of n tok gh tf c]
  by blast

theorem llm_chat_total_round_trip_witness:
  "fst (snd (snd (llm_chat_estimates_exact 13))) = 1014 \<and>
   llm_chat_estimates 13 =
     Inr (39000, Fin (1804108650727381 / 576460752303423488),
          Fin (8919238324518913 / 8796093022208),
          Fin (1804108650727381 / 288230376151711744)) \<and>
   direct_tflops 13 = 1014 \<and>
   \<bar>(8919238324518913 / 8796093022208) - 1014 :: rat\<bar> \<le> \<bar>1014\<bar> / 2 ^ 49"
  using llm_chat_total_round_trip [of 13 39000 "Fin (1804108650727381 / 576460752303423488)"
      "8919238324518913 / 8796093022208"
      "Fin (1804108650727381 / 288230376151711744)"]
    llm_chat_estimates_13
  by (simp add: direct_tflops_eq)

text \<open>
  The rounding is visible in the returned float: for 13 users the direct count is
  \<open>1014\<close> tera-operations, and the estimator returns the next float above it.
\<close>

lemma llm_chat_total_rounds_for_13_users:
  "llm_chat_estimates 13 =
     Inr (39000, Fin (1804108650727381 / 576460752303423488),
          Fin (8919238324518913 / 8796093022208),
          Fin (1804108650727381 / 288230376151711744)) \<and>
   direct_tflops 13 = 1014 \<and>
   (8919238324518913 / 8796093022208) \<noteq> (1014 :: rat)"
  using llm_chat_estimates_13 by (simp add: direct_tflops_eq)

section \<open>The reports\<close>

text \<open>
  Claim C9. Generating both reports over the documented scenario lists never raises: each
  report function returns the text below, and so does the main entry point. Every numeric
  field of a line that reports a call of \<open>translation_doc_time\<close>,
  \<open>translation_estimates\<close> or \<open>llm_chat_estimates\<close> shows the arguments of the call
  and the integer components of the returned tuple exactly (thousands separators apart),
  and each float component to the displayed precision: within half a unit of the last
  displayed decimal (two decimals, none for the totals of operations).
\<close>

theorem reports_show_the_estimates:
  "print_translation_summary [] =
     Inr (unlines
          [''================================================================================'',
           ''USE CASE 1: MACHINE TRANSLATION - CAPACITY & COST ESTIMATES'',
           ''Assumptions:'',
           ''  - 1 GPU can translate 1000 words/minute (60000 words/hour)'',
           ''  - GPU peak performance: 90 TFLOPs/s'',
           ''  - GPU hourly cost: $2.0/hour'',
           '''',
           ''Time to translate a 10,000-word document on 1 GPU(s): 10.00 minutes'',
           ''Time to translate a 10,000-word document on 2 GPU(s): 5.00 minutes'',
           '''',
           ''Daily translation load scenarios:'',
           ''Words/day | GPU-hours/day | Total TFLOPs used/day | Cost/day (USD)'',
           ''--------------------------------------------------------------------------------'',
           ''   10,000 |          0.17 |                 54000 | $      0.33'',
           ''  100,000 |          1.67 |                540000 | $      3.33'',
           ''1,000,000 |         16.67 |               5400000 | $     33.33'',
           '''']) \<and>
   print_llm_chat_summary [] =
     Inr (unlines
          ([''================================================================================'',
            ''USE CASE 2: LLM CHAT - CAPACITY & COST ESTIMATES'',
            ''Assumptions:'',
            ''  - Model size: ~13B parameters'',
            ''  - FLOPs per token '' @ [CHR 0xE2, CHR 0x89, CHR 0x88] @ '' 2 '' @ [CHR 0xC3, CHR 0x97] @ '' params '' @
              [CHR 0xE2, CHR 0x89, CHR 0x88] @ '' 26 GFLOPs/token''] @
           [''  - Avg tokens per user/day: 3000 tokens'',
            ''  - GPU peak performance: 90 TFLOPs/s'',
            ''  - GPU hourly cost: $2.0/hour'',
            '''',
            ''Daily user load scenarios:'',
            ''Users/day | Tokens/day     | GPU-hours/day | Total TFLOPs used/day | Cost/day (USD)'',
            ''------------------------------------------------------------------------------------------'',
            ''      100 |       300,000 |          0.02 |                  7800 | $      0.05'',
            ''   10,000 |    30,000,000 |          2.41 |                780000 | $      4.81'',
            ''  100,000 |   300,000,000 |         24.07 |               7800000 | $     48.15'',
            ''''])) \<and>
   (\<exists>out. main [] = Inr out) \<and>
   shows_doc_time
     ''Time to translate a 10,000-word document on 1 GPU(s): 10.00 minutes''
     10000 1 \<and>
   shows_doc_time
     ''Time to translate a 10,000-word document on 2 GPU(s): 5.00 minutes''
     10000 2 \<and>
   shows_translation_estimates
     ''   10,000 |          0.17 |                 54000 | $      0.33''
     10000 \<and>
   shows_translation_estimates
     ''  100,000 |          1.67 |                540000 | $      3.33''
     100000 \<and>
   shows_translation_estimates
     ''1,000,000 |         16.67 |               5400000 | $     33.33''
     1000000 \<and>
   shows_llm_chat_estimates
     ''      100 |       300,000 |          0.02 |                  7800 | $      0.05''
     100 \<and>
   shows_llm_chat_estimates
     ''   10,000 |    30,000,000 |          2.41 |                780000 | $      4.81''
     10000 \<and>
   shows_llm_chat_estimates
     ''  100,000 |   300,000,000 |         24.07 |               7800000 | $     48.15''
     100000"
proof -
  note t = print_translation_summary_text [of "[]", unfolded append_Nil]
    and c = print_llm_chat_summary_text [of "[]", unfolded append_Nil]
  have m: "\<exists>out. main [] = Inr out"
    by (simp add: main_def print_translation_summary_text print_llm_chat_summary_text)
  show ?thesis
    by (intro conjI)
      (rule t c m report_line_1 report_line_2 report_line_3 report_line_4 report_line_5 report_line_6
        report_line_7 report_line_8)+
qed

end
